theory Spec2Isabelle
  imports Complex_Main "HOL-Library.Multiset"
begin

section \<open>The pomodoro timer and task tracker of \<open>src/pomodoro.py\<close>\<close>

text \<open>
  The development follows the classes of the source: \<open>PomodoroTimer\<close>, \<open>TaskManager\<close>,
  \<open>Statistics\<close> and the parts of \<open>PomodoroApp\<close> that change their state.

  Conventions of the embedding.
  \<^item> Every method becomes a function that takes the object and returns the new object.
  \<^item> \<open>time.time()\<close> and \<open>date.today().isoformat()\<close> are read from the environment; the
    value read is an explicit argument (\<open>now\<close>, \<open>today\<close>).
  \<^item> A Python float is the real number it denotes. A subtraction or addition of floats
    returns the double nearest to the exact result, ties to the even significand
    (\<open>float_sub\<close>, \<open>float_add\<close>). Infinities and NaN are not values of the model: it
    covers the results below \<open>2 ^ 1024\<close> in magnitude.
  \<^item> An exception is a value \<open>Inl e\<close> of the result.
  \<^item> \<open>save_tasks\<close> and \<open>save_stats\<close> write the object to a file and change nothing in
    memory; \<open>SoundPlayer\<close> starts a daemon thread whose result is never read. Neither is
    part of the state, and the calls are left out.
\<close>

subsection \<open>Settings and enumerations\<close>

definition WORK_MINUTES :: int where "WORK_MINUTES = 25"
definition SHORT_BREAK_MINUTES :: int where "SHORT_BREAK_MINUTES = 5"
definition LONG_BREAK_MINUTES :: int where "LONG_BREAK_MINUTES = 15"
definition POMODOROS_UNTIL_LONG_BREAK :: int where "POMODOROS_UNTIL_LONG_BREAK = 4"

datatype TimerState = STOPPED | RUNNING | PAUSED

datatype SessionType = WORK | SHORT_BREAK | LONG_BREAK

datatype error = TypeError | ValueError

subsection \<open>Double-precision arithmetic\<close>

text \<open>
  \<open>pow2 k\<close> is \<open>2\<close> to the power \<open>k\<close>. A double has 53 significant bits: a real
  \<open>x\<close> with \<open>2 ^ e \<le> |x| < 2 ^ (e + 1)\<close> is rounded to a multiple of \<open>2 ^ (e - 52)\<close>,
  and below \<open>2 ^ -1022\<close> (the subnormal range) to a multiple of \<open>2 ^ -1074\<close>.
\<close>

definition pow2 :: "int \<Rightarrow> real" where
  "pow2 k = (if 0 \<le> k then 2 ^ nat k else 1 / 2 ^ nat (- k))"

definition expo :: "real \<Rightarrow> int" where
  "expo x = max \<lfloor>log 2 \<bar>x\<bar>\<rfloor> (- 1022)"

definition round_half_even :: "real \<Rightarrow> int" where
  "round_half_even y =
     (let f = \<lfloor>y\<rfloor>; d = y - of_int f
      in if d < 1 / 2 then f else if 1 / 2 < d then f + 1 else if even f then f else f + 1)"

definition round_double :: "real \<Rightarrow> real" where
  "round_double x =
     (if x = 0 then 0
      else pow2 (expo x - 52) * of_int (round_half_even (x / pow2 (expo x - 52))))"

text \<open>The float operations \<open>a - b\<close> and \<open>a + b\<close> of the source.\<close>

definition float_sub :: "real \<Rightarrow> real \<Rightarrow> real" where
  "float_sub a b = round_double (a - b)"

definition float_add :: "real \<Rightarrow> real \<Rightarrow> real" where
  "float_add a b = round_double (a + b)"

subsection \<open>PomodoroTimer\<close>

text \<open>\<open>start_time\<close> is \<open>None\<close> until the first \<open>start()\<close>; \<open>paused_time\<close> starts at 0.\<close>

record PomodoroTimer =
  state :: TimerState
  session_type :: SessionType
  remaining_seconds :: int
  total_seconds :: int
  pomodoros_completed :: int
  start_time :: "real option"
  paused_time :: real

definition PomodoroTimer_init :: PomodoroTimer where
  "PomodoroTimer_init =
     \<lparr>state = STOPPED, session_type = WORK,
      remaining_seconds = WORK_MINUTES * 60, total_seconds = WORK_MINUTES * 60,
      pomodoros_completed = 0, start_time = None, paused_time = 0\<rparr>"

text \<open>Python's \<open>int(x)\<close> on a float truncates towards zero.\<close>

definition py_int :: "real \<Rightarrow> int" where
  "py_int x = (if 0 \<le> x then \<lfloor>x\<rfloor> else \<lceil>x\<rceil>)"

text \<open>
  \<open>start()\<close>: in the \<open>PAUSED\<close> branch \<open>self.start_time += pause_duration\<close> raises a
  \<open>TypeError\<close> when \<open>start_time\<close> is still \<open>None\<close>.
\<close>

definition start :: "real \<Rightarrow> PomodoroTimer \<Rightarrow> error + PomodoroTimer" where
  "start now t =
     (if state t = STOPPED then
        Inr (t\<lparr>start_time := Some now, state := RUNNING\<rparr>)
      else if state t = PAUSED then
        (let pause_duration = float_sub now (paused_time t) in
         case start_time t of
           None \<Rightarrow> Inl TypeError
         | Some s \<Rightarrow>
             Inr (t\<lparr>start_time := Some (float_add s pause_duration), state := RUNNING\<rparr>))
      else Inr (t\<lparr>state := RUNNING\<rparr>))"

definition pause :: "real \<Rightarrow> PomodoroTimer \<Rightarrow> PomodoroTimer" where
  "pause now t =
     (if state t = RUNNING then t\<lparr>state := PAUSED, paused_time := now\<rparr> else t)"


definition start_work :: "PomodoroTimer \<Rightarrow> PomodoroTimer" where
  "start_work t =
     (let t1 = t\<lparr>session_type := WORK\<rparr>;
          t2 = t1\<lparr>total_seconds := WORK_MINUTES * 60\<rparr>;
          t3 = t2\<lparr>remaining_seconds := total_seconds t2\<rparr>
      in t3\<lparr>state := STOPPED\<rparr>)"

definition start_break :: "SessionType \<Rightarrow> PomodoroTimer \<Rightarrow> PomodoroTimer" where
  "start_break break_type t =
     (let t1 = t\<lparr>session_type := break_type\<rparr>;
          t2 = (if break_type = LONG_BREAK
                then t1\<lparr>total_seconds := LONG_BREAK_MINUTES * 60\<rparr>
                else t1\<lparr>total_seconds := SHORT_BREAK_MINUTES * 60\<rparr>);
          t3 = t2\<lparr>remaining_seconds := total_seconds t2\<rparr>
      in t3\<lparr>state := STOPPED\<rparr>)"

definition complete_session :: "PomodoroTimer \<Rightarrow> PomodoroTimer" where
  "complete_session t =
     (if session_type t = WORK then
        (let t1 = t\<lparr>pomodoros_completed := pomodoros_completed t + 1\<rparr> in
         if pomodoros_completed t1 mod POMODOROS_UNTIL_LONG_BREAK = 0
         then start_break LONG_BREAK t1
         else start_break SHORT_BREAK t1)
      else start_work t)"

text \<open>
  In \<open>time.time() - self.total_seconds\<close> the integer is converted to a float first, to
  the nearest double.
\<close>

definition skip :: "real \<Rightarrow> PomodoroTimer \<Rightarrow> PomodoroTimer" where
  "skip now t =
     (if state t = RUNNING then
        t\<lparr>start_time := Some (float_sub now (round_double (real_of_int (total_seconds t)))),
          remaining_seconds := 0\<rparr>
      else complete_session t)"

text \<open>
  \<open>update()\<close> returns the new timer and the boolean the caller tests. With \<open>start_time\<close>
  \<open>None\<close> the subtraction \<open>time.time() - self.start_time\<close> raises a \<open>TypeError\<close>.
\<close>

definition update :: "real \<Rightarrow> PomodoroTimer \<Rightarrow> error + PomodoroTimer \<times> bool" where
  "update now t =
     (if state t \<noteq> RUNNING then Inr (t, False)
      else case start_time t of
        None \<Rightarrow> Inl TypeError
      | Some s \<Rightarrow>
          (let elapsed = float_sub now s;
               t1 = t\<lparr>remaining_seconds := max 0 (total_seconds t - py_int elapsed)\<rparr>
           in if remaining_seconds t1 = 0 then Inr (complete_session t1, True)
              else Inr (t1, False)))"

subsection \<open>Task and TaskManager\<close>

text \<open>The field \<open>id\<close> of the dataclass is \<open>task_id\<close> here.\<close>

record Task =
  task_id :: int
  title :: string
  priority :: string
  estimated_pomodoros :: int
  completed_pomodoros :: int
  completed :: bool
  created_at :: string

text \<open>
  The constructor with \<open>__post_init__\<close>: an empty \<open>created_at\<close> is replaced by
  \<open>datetime.now().isoformat()\<close>, here the argument \<open>now_iso\<close>.
\<close>

definition Task_init :: "string \<Rightarrow> int \<Rightarrow> string \<Rightarrow> string \<Rightarrow> int \<Rightarrow> int \<Rightarrow> bool \<Rightarrow> string \<Rightarrow> Task" where
  "Task_init now_iso i ttl prio est done_poms compl created =
     \<lparr>task_id = i, title = ttl, priority = prio, estimated_pomodoros = est,
      completed_pomodoros = done_poms, completed = compl,
      created_at = (if created = [] then now_iso else created)\<rparr>"

record TaskManager =
  tasks :: "Task list"
  next_id :: int
  active_task_id :: "int option"

text \<open>The state of a new \<open>TaskManager\<close> when no task file exists.\<close>

definition TaskManager_init :: TaskManager where
  "TaskManager_init = \<lparr>tasks = [], next_id = 1, active_task_id = None\<rparr>"

definition add_task :: "string \<Rightarrow> string \<Rightarrow> string \<Rightarrow> int \<Rightarrow> TaskManager \<Rightarrow> Task \<times> TaskManager" where
  "add_task now_iso ttl prio est tm =
     (let task = Task_init now_iso (next_id tm) ttl prio est 0 False [];
          tm1 = tm\<lparr>tasks := tasks tm @ [task]\<rparr>;
          tm2 = tm1\<lparr>next_id := next_id tm1 + 1\<rparr>
      in (task, tm2))"

text \<open>The loop of \<open>get_task\<close> returns the first task of the list with the given id.\<close>

definition get_task :: "TaskManager \<Rightarrow> int \<Rightarrow> Task option" where
  "get_task tm i = find (\<lambda>t. task_id t = i) (tasks tm)"

text \<open>
  \<open>get_task\<close> returns a reference into the list, and the callers assign to the fields of
  that object. \<open>modify_task i f ts\<close> is the list after such an assignment: \<open>f\<close> applied to
  the first task with id \<open>i\<close>, every other position as it was.
\<close>

fun modify_task :: "int \<Rightarrow> (Task \<Rightarrow> Task) \<Rightarrow> Task list \<Rightarrow> Task list" where
  "modify_task i f [] = []"
| "modify_task i f (t # ts) = (if task_id t = i then f t # ts else t # modify_task i f ts)"

text \<open>\<open>if self.active_task_id:\<close> is false for \<open>None\<close> and for the id 0.\<close>

definition get_active_task :: "TaskManager \<Rightarrow> Task option" where
  "get_active_task tm =
     (case active_task_id tm of
        None \<Rightarrow> None
      | Some i \<Rightarrow> if i \<noteq> 0 then get_task tm i else None)"

definition set_active_task :: "int option \<Rightarrow> TaskManager \<Rightarrow> TaskManager" where
  "set_active_task i tm = tm\<lparr>active_task_id := i\<rparr>"

definition complete_task :: "int \<Rightarrow> TaskManager \<Rightarrow> TaskManager" where
  "complete_task i tm =
     (case get_task tm i of
        None \<Rightarrow> tm
      | Some _ \<Rightarrow> tm\<lparr>tasks := modify_task i (\<lambda>t. t\<lparr>completed := True\<rparr>) (tasks tm)\<rparr>)"

definition delete_task :: "int \<Rightarrow> TaskManager \<Rightarrow> TaskManager" where
  "delete_task i tm =
     (let tm1 = tm\<lparr>tasks := filter (\<lambda>t. task_id t \<noteq> i) (tasks tm)\<rparr>
      in if active_task_id tm1 = Some i then tm1\<lparr>active_task_id := None\<rparr> else tm1)"

definition edit_fields :: "string option \<Rightarrow> string option \<Rightarrow> int option \<Rightarrow> Task \<Rightarrow> Task" where
  "edit_fields new_title new_priority estimated t =
     (let t1 = (case new_title of None \<Rightarrow> t | Some x \<Rightarrow> t\<lparr>title := x\<rparr>);
          t2 = (case new_priority of None \<Rightarrow> t1 | Some p \<Rightarrow> t1\<lparr>priority := p\<rparr>)
      in case estimated of None \<Rightarrow> t2 | Some e \<Rightarrow> t2\<lparr>estimated_pomodoros := e\<rparr>)"

definition edit_task :: "int \<Rightarrow> string option \<Rightarrow> string option \<Rightarrow> int option \<Rightarrow> TaskManager \<Rightarrow> TaskManager" where
  "edit_task i new_title new_priority estimated tm =
     (case get_task tm i of
        None \<Rightarrow> tm
      | Some _ \<Rightarrow>
          tm\<lparr>tasks := modify_task i (edit_fields new_title new_priority estimated) (tasks tm)\<rparr>)"

definition increment_task_pomodoro :: "int \<Rightarrow> TaskManager \<Rightarrow> TaskManager" where
  "increment_task_pomodoro i tm =
     (case get_task tm i of
        None \<Rightarrow> tm
      | Some _ \<Rightarrow>
          tm\<lparr>tasks := modify_task i
                 (\<lambda>t. t\<lparr>completed_pomodoros := completed_pomodoros t + 1\<rparr>) (tasks tm)\<rparr>)"

text \<open>\<open>priority_order.get(t.priority, 3)\<close> of \<open>get_incomplete_tasks\<close>.\<close>

definition priority_order :: "string \<Rightarrow> nat" where
  "priority_order p =
     (if p = ''High'' then 0 else if p = ''Medium'' then 1 else if p = ''Low'' then 2 else 3)"

text \<open>
  \<open>list.sort(key=...)\<close> is a stable sort. \<open>sort_key\<close> is one too (\<open>sort_key_stable\<close>),
  and the stable sort of a list by a key is unique, so it returns the same list.
\<close>

definition get_incomplete_tasks :: "bool \<Rightarrow> TaskManager \<Rightarrow> Task list" where
  "get_incomplete_tasks sort_by_priority tm =
     (let ts = filter (\<lambda>t. \<not> completed t) (tasks tm)
      in if sort_by_priority then sort_key (\<lambda>t. priority_order (priority t)) ts else ts)"

subsection \<open>Statistics\<close>

text \<open>
  The dictionary \<open>self.stats\<close>: from the ISO date to the entry of that day, which holds
  \<open>"total_pomodoros"\<close> and the dictionary \<open>"tasks"\<close> from task title to count (the
  field \<open>day_tasks\<close> here, since \<open>tasks\<close> is the list of the task manager).
\<close>

record day_stats =
  total_pomodoros :: int
  day_tasks :: "string \<rightharpoonup> int"

type_synonym Statistics = "string \<rightharpoonup> day_stats"

definition zero_day :: day_stats where
  "zero_day = \<lparr>total_pomodoros = 0, day_tasks = Map.empty\<rparr>"

definition record_pomodoro :: "string \<Rightarrow> string \<Rightarrow> Statistics \<Rightarrow> Statistics" where
  "record_pomodoro today task_title s =
     (let s1 = (if today \<notin> dom s then s(today \<mapsto> zero_day) else s);
          e1 = (case s1 today of None \<Rightarrow> zero_day | Some e \<Rightarrow> e);
          e2 = e1\<lparr>total_pomodoros := total_pomodoros e1 + 1\<rparr>;
          e3 = (if task_title \<notin> dom (day_tasks e2)
                then e2\<lparr>day_tasks := (day_tasks e2)(task_title \<mapsto> 0)\<rparr> else e2);
          c = (case day_tasks e3 task_title of None \<Rightarrow> 0 | Some n \<Rightarrow> n);
          e4 = e3\<lparr>day_tasks := (day_tasks e3)(task_title \<mapsto> c + 1)\<rparr>
      in s1(today \<mapsto> e4))"

definition get_today_stats :: "string \<Rightarrow> Statistics \<Rightarrow> day_stats" where
  "get_today_stats today s = (case s today of None \<Rightarrow> zero_day | Some e \<Rightarrow> e)"

subsection \<open>PomodoroApp\<close>

text \<open>
  The fields of the application that the loop changes. The console, the live display
  and the terminal settings belong to rendering and are left out.
\<close>

record PomodoroApp =
  timer :: PomodoroTimer
  task_manager :: TaskManager
  stats :: Statistics
  running :: bool
  show_help :: bool

definition PomodoroApp_init :: PomodoroApp where
  "PomodoroApp_init =
     \<lparr>timer = PomodoroTimer_init, task_manager = TaskManager_init, stats = Map.empty,
      running = True, show_help = False\<rparr>"

definition on_session_complete :: "string \<Rightarrow> PomodoroApp \<Rightarrow> PomodoroApp" where
  "on_session_complete today a =
     (if session_type (timer a) = WORK then
        (case get_active_task (task_manager a) of
           Some active_task \<Rightarrow>
             (let a1 = a\<lparr>task_manager :=
                          increment_task_pomodoro (task_id active_task) (task_manager a)\<rparr>
              in a1\<lparr>stats := record_pomodoro today (title active_task) (stats a1)\<rparr>)
         | None \<Rightarrow> a\<lparr>stats := record_pomodoro today ''No task'' (stats a)\<rparr>)
      else a)"

text \<open>
  \<open>key.isdigit()\<close> and \<open>int(key)\<close> on the one character read from the terminal. The
  digits outside ASCII that \<open>isdigit\<close> accepts are above \<open>'9'\<close> and fail the range test
  of \<open>handle_input\<close> anyway.
\<close>

definition isdigit :: "char \<Rightarrow> bool" where
  "isdigit c = (48 \<le> (of_char c :: nat) \<and> (of_char c :: nat) \<le> 57)"

definition int_of_key :: "char \<Rightarrow> int" where
  "int_of_key c = int (of_char c) - 48"

definition key_in_1_9 :: "char \<Rightarrow> bool" where
  "key_in_1_9 c = (of_char (CHR ''1'') \<le> (of_char c :: nat) \<and> (of_char c :: nat) \<le> of_char (CHR ''9''))"

text \<open>
  \<open>handle_input\<close>. The four dialogs (\<open>add_task_interactive\<close>, \<open>edit_task_interactive\<close>,
  \<open>complete_task_interactive\<close>, \<open>delete_task_interactive\<close>) read lines from the console
  and call the task manager; what they do to it, for the lines typed, is the argument
  \<open>dialogs\<close> (an unguarded \<open>int(...)\<close> of the edit dialog can raise \<open>ValueError\<close>).
\<close>

definition handle_input ::
  "(char \<Rightarrow> TaskManager \<Rightarrow> error + TaskManager) \<Rightarrow> real \<Rightarrow> char \<Rightarrow> PomodoroApp \<Rightarrow> error + PomodoroApp" where
  "handle_input dialogs now key a =
     (if show_help a then Inr (a\<lparr>show_help := False\<rparr>)
      else if key = CHR ''q'' then Inr (a\<lparr>running := False\<rparr>)
      else if key = CHR ''?'' then Inr (a\<lparr>show_help := True\<rparr>)
      else if key = CHR ''s'' then
        (if state (timer a) = RUNNING then Inr (a\<lparr>timer := pause now (timer a)\<rparr>)
         else case start now (timer a) of
                Inl e \<Rightarrow> Inl e
              | Inr t \<Rightarrow> Inr (a\<lparr>timer := t\<rparr>))
      else if key = CHR ''k'' then Inr (a\<lparr>timer := skip now (timer a)\<rparr>)
      else if key = CHR ''a'' \<or> key = CHR ''e'' \<or> key = CHR ''c'' \<or> key = CHR ''d'' then
        (case dialogs key (task_manager a) of
           Inl e \<Rightarrow> Inl e
         | Inr tm \<Rightarrow> Inr (a\<lparr>task_manager := tm\<rparr>))
      else if isdigit key \<and> key_in_1_9 key then
        (let ts = get_incomplete_tasks True (task_manager a);
             idx = int_of_key key - 1
         in if idx < int (length ts)
            then Inr (a\<lparr>task_manager :=
                          set_active_task (Some (task_id (ts ! nat idx))) (task_manager a)\<rparr>)
            else Inr a)
      else Inr a)"

text \<open>
  The first statement of the loop body of \<open>run\<close>:
  \<open>if self.timer.update(): self.on_session_complete()\<close>.
\<close>

definition run_update :: "real \<Rightarrow> string \<Rightarrow> PomodoroApp \<Rightarrow> error + PomodoroApp" where
  "run_update now today a =
     (case update now (timer a) of
        Inl e \<Rightarrow> Inl e
      | Inr (t, completed_now) \<Rightarrow>
          (let a1 = a\<lparr>timer := t\<rparr>
           in if completed_now then Inr (on_session_complete today a1) else Inr a1))"

text \<open>
  One pass through the loop body: the update, then the key read by
  \<open>get_input_nonblocking\<close>, if any (\<open>if key:\<close>). The clock is read once in the update
  (\<open>now\<close>) and once more by the command (\<open>now'\<close>).
\<close>

definition run_iteration ::
  "(char \<Rightarrow> TaskManager \<Rightarrow> error + TaskManager) \<Rightarrow> real \<Rightarrow> string \<Rightarrow> char option \<Rightarrow> real \<Rightarrow>
     PomodoroApp \<Rightarrow> error + PomodoroApp" where
  "run_iteration dialogs now today key now' a =
     (case run_update now today a of
        Inl e \<Rightarrow> Inl e
      | Inr a1 \<Rightarrow>
          (case key of
             None \<Rightarrow> Inr a1
           | Some k \<Rightarrow> handle_input dialogs now' k a1))"

text \<open>
  The rows of the table built by \<open>render_tasks\<close>: \<open>enumerate(tasks[:10], 1)\<close> over
  \<open>get_incomplete_tasks(sort_by_priority=True)\<close>, the selection number shown with each
  task.
\<close>

definition render_tasks_rows :: "TaskManager \<Rightarrow> (nat \<times> Task) list" where
  "render_tasks_rows tm =
     (let ts = get_incomplete_tasks True tm in zip [1..<Suc (length (take 10 ts))] (take 10 ts))"

subsection \<open>Notions of the specification\<close>

text \<open>
  The duration table of the specification, in seconds: Work 25 minutes, ShortBreak
  5 minutes, LongBreak 15 minutes.
\<close>

definition session_duration :: "SessionType \<Rightarrow> int" where
  "session_duration st =
     (case st of WORK \<Rightarrow> 25 * 60 | SHORT_BREAK \<Rightarrow> 5 * 60 | LONG_BREAK \<Rightarrow> 15 * 60)"




text \<open>
  The invariant of the task store: the active-task reference, if set, is the id of a task
  of the list.
\<close>

definition store_inv :: "TaskManager \<Rightarrow> bool" where
  "store_inv tm =
     (case active_task_id tm of None \<Rightarrow> True | Some i \<Rightarrow> i \<in> task_id ` set (tasks tm))"

text \<open>
  Runs of \<open>add_task\<close> and \<open>delete_task\<close>; the result holds the ids that the adds
  assigned, in order.
\<close>

datatype store_op = Add string string string int | Delete int

fun apply_store_ops :: "store_op list \<Rightarrow> TaskManager \<Rightarrow> int list \<times> TaskManager" where
  "apply_store_ops [] tm = ([], tm)"
| "apply_store_ops (Add now_iso ttl prio est # ops) tm =
     (case add_task now_iso ttl prio est tm of
        (task, tm1) \<Rightarrow>
          (case apply_store_ops ops tm1 of (ids, tm2) \<Rightarrow> (task_id task # ids, tm2)))"
| "apply_store_ops (Delete i # ops) tm = apply_store_ops ops (delete_task i tm)"

fun count_adds :: "store_op list \<Rightarrow> nat" where
  "count_adds [] = 0"
| "count_adds (Add now_iso ttl prio est # ops) = Suc (count_adds ops)"
| "count_adds (Delete i # ops) = count_adds ops"

text \<open>The keys that open one of the four dialogs.\<close>

definition is_dialog_key :: "char \<Rightarrow> bool" where
  "is_dialog_key key = (key = CHR ''a'' \<or> key = CHR ''e'' \<or> key = CHR ''c'' \<or> key = CHR ''d'')"

text \<open>The count of a title in the entry of a day; a title without a counter counts 0.\<close>

definition title_count :: "day_stats \<Rightarrow> string \<Rightarrow> int" where
  "title_count e ttl = (case day_tasks e ttl of None \<Rightarrow> 0 | Some n \<Rightarrow> n)"

subsection \<open>States used in the examples\<close>

text \<open>A first work session started at clock value 100, and the application around it.\<close>

definition running_timer :: PomodoroTimer where
  "running_timer = PomodoroTimer_init\<lparr>state := RUNNING, start_time := Some 100\<rparr>"

definition running_app :: PomodoroApp where
  "running_app = PomodoroApp_init\<lparr>timer := running_timer\<rparr>"

text \<open>A user who leaves every dialog without a change.\<close>

definition no_dialogs :: "char \<Rightarrow> TaskManager \<Rightarrow> error + TaskManager" where
  "no_dialogs key tm = Inr tm"

text \<open>
  A store with three tasks, added in the order C (Medium), A (High), B (High), and the
  application holding it.
\<close>

definition example_store :: TaskManager where
  "example_store =
     snd (apply_store_ops
            [Add ''2024-05-01T09:00:00'' ''C'' ''Medium'' 1,
             Add ''2024-05-01T09:01:00'' ''A'' ''High'' 2,
             Add ''2024-05-01T09:02:00'' ''B'' ''High'' 1] TaskManager_init)"

definition task_A :: Task where
  "task_A = \<lparr>task_id = 2, title = ''A'', priority = ''High'', estimated_pomodoros = 2,
          completed_pomodoros = 0, completed = False, created_at = ''2024-05-01T09:01:00''\<rparr>"

definition task_B :: Task where
  "task_B = \<lparr>task_id = 3, title = ''B'', priority = ''High'', estimated_pomodoros = 1,
          completed_pomodoros = 0, completed = False, created_at = ''2024-05-01T09:02:00''\<rparr>"

definition task_C :: Task where
  "task_C = \<lparr>task_id = 1, title = ''C'', priority = ''Medium'', estimated_pomodoros = 1,
          completed_pomodoros = 0, completed = False, created_at = ''2024-05-01T09:00:00''\<rparr>"

definition example_app :: PomodoroApp where
  "example_app = PomodoroApp_init\<lparr>task_manager := example_store\<rparr>"

text \<open>
  Task A is active and the first work session runs; \<open>break_timer\<close> is the short break
  after it, running since 100.
\<close>

definition work_app :: PomodoroApp where
  "work_app = \<lparr>timer = running_timer, task_manager = set_active_task (Some 2) example_store,
               stats = Map.empty, running = True, show_help = False\<rparr>"

definition break_timer :: PomodoroTimer where
  "break_timer = (complete_session running_timer)\<lparr>state := RUNNING, start_time := Some 100\<rparr>"

text \<open>Add three tasks, delete the second, add a fourth.\<close>

definition scenario_ops :: "store_op list" where
  "scenario_ops =
     [Add ''2024-05-01T09:00:00'' ''one'' ''High'' 1,
      Add ''2024-05-01T09:01:00'' ''two'' ''Low'' 1,
      Add ''2024-05-01T09:02:00'' ''three'' ''Low'' 1,
      Delete 2,
      Add ''2024-05-01T09:03:00'' ''four'' ''Medium'' 1]"

text \<open>Two days, a title, and the statistics after one pomodoro on the earlier day.\<close>

definition today_ex :: string where "today_ex = ''2024-05-01''"
definition prior_day_ex :: string where "prior_day_ex = ''2024-04-30''"
definition report_ex :: string where "report_ex = ''Write report''"

definition stats_prior :: Statistics where
  "stats_prior = record_pomodoro prior_day_ex report_ex Map.empty"




section \<open>Properties\<close>

lemmas settings =
  WORK_MINUTES_def SHORT_BREAK_MINUTES_def LONG_BREAK_MINUTES_def POMODOROS_UNTIL_LONG_BREAK_def

subsection \<open>The session-completion transition\<close>

text \<open>
  C4. \<open>complete_session\<close>: from Work the counter of completed work sessions goes up by
  one and the next session is LongBreak exactly when the new count is divisible by 4,
  ShortBreak otherwise; from a break the next session is Work (the counter stays). In
  every case the new \<open>total_seconds\<close> is the entry of the duration table for the new
  session, \<open>remaining_seconds\<close> equals it, and the timer is Stopped.
\<close>

theorem complete_session_transition:
  "(session_type t = WORK \<longrightarrow>
      pomodoros_completed (complete_session t) = pomodoros_completed t + 1 \<and>
      session_type (complete_session t) =
        (if (pomodoros_completed t + 1) mod 4 = 0 then LONG_BREAK else SHORT_BREAK)) \<and>
   (session_type t \<noteq> WORK \<longrightarrow>
      pomodoros_completed (complete_session t) = pomodoros_completed t \<and>
      session_type (complete_session t) = WORK) \<and>
   total_seconds (complete_session t) = session_duration (session_type (complete_session t)) \<and>
   remaining_seconds (complete_session t) = total_seconds (complete_session t) \<and>
   state (complete_session t) = STOPPED"
  by (simp add: complete_session_def start_break_def start_work_def Let_def settings
        session_duration_def)

text \<open>
  The fourth work session is followed by a long break of 900 seconds, and the break by
  a work session.
\<close>

theorem complete_session_transition_witness:
  "session_type (complete_session (PomodoroTimer_init\<lparr>pomodoros_completed := 3\<rparr>)) = LONG_BREAK \<and>
   pomodoros_completed (complete_session (PomodoroTimer_init\<lparr>pomodoros_completed := 3\<rparr>)) = 4 \<and>
   total_seconds (complete_session (PomodoroTimer_init\<lparr>pomodoros_completed := 3\<rparr>)) = 900 \<and>
   session_type
     (complete_session (complete_session (PomodoroTimer_init\<lparr>pomodoros_completed := 3\<rparr>))) = WORK"
  using complete_session_transition [of "PomodoroTimer_init\<lparr>pomodoros_completed := 3\<rparr>"]
        complete_session_transition
          [of "complete_session (PomodoroTimer_init\<lparr>pomodoros_completed := 3\<rparr>)"]
  by (simp add: PomodoroTimer_init_def session_duration_def)

subsection \<open>Facts about double-precision rounding\<close>

lemma pow2_powr: "pow2 k = 2 powr (real_of_int k)"
  by (simp add: pow2_def powr_int)

lemma pow2_pos: "0 < pow2 k"
  by (simp add: pow2_powr)

lemma pow2_add: "pow2 (j + k) = pow2 j * pow2 k"
  by (simp add: pow2_powr powr_add)

lemma pow2_mono: "j \<le> k \<Longrightarrow> pow2 j \<le> pow2 k"
  by (simp add: pow2_powr)

lemma pow2_nonneg_int: "0 \<le> k \<Longrightarrow> pow2 k = of_int (2 ^ nat k)"
  by (simp add: pow2_def)

lemma pow2_div: "x / pow2 k = x * pow2 (- k)"
  by (simp add: pow2_powr powr_minus field_simps)

lemma expo_eq:
  assumes "pow2 e \<le> \<bar>x\<bar>" "\<bar>x\<bar> < pow2 (e + 1)" "- 1022 \<le> e"
  shows "expo x = e"
proof -
  have "0 < \<bar>x\<bar>" using assms(1) pow2_pos [of e] by linarith
  then have "\<lfloor>log 2 \<bar>x\<bar>\<rfloor> = e"
    using assms(1,2) by (simp add: floor_log_eq_powr_iff pow2_powr)
  then show ?thesis using assms(3) by (simp add: expo_def)
qed

lemma expo_ge: "- 1022 \<le> expo x"
  by (simp add: expo_def)

lemma floor_log2_bounds:
  assumes "x \<noteq> 0"
  shows "2 powr real_of_int \<lfloor>log 2 \<bar>x\<bar>\<rfloor> \<le> \<bar>x\<bar>"
    and "\<bar>x\<bar> < 2 powr real_of_int (\<lfloor>log 2 \<bar>x\<bar>\<rfloor> + 1)"
proof -
  have p: "0 < \<bar>x\<bar>" using assms by simp
  have "2 powr real_of_int \<lfloor>log 2 \<bar>x\<bar>\<rfloor> \<le> \<bar>x\<bar> \<and>
      \<bar>x\<bar> < 2 powr real_of_int (\<lfloor>log 2 \<bar>x\<bar>\<rfloor> + 1)"
    using floor_log_eq_powr_iff [OF p, of 2 "\<lfloor>log 2 \<bar>x\<bar>\<rfloor>"] by simp
  then show "2 powr real_of_int \<lfloor>log 2 \<bar>x\<bar>\<rfloor> \<le> \<bar>x\<bar>"
    and "\<bar>x\<bar> < 2 powr real_of_int (\<lfloor>log 2 \<bar>x\<bar>\<rfloor> + 1)" by blast+
qed

lemma expo_upper: "x \<noteq> 0 \<Longrightarrow> \<bar>x\<bar> < pow2 (expo x + 1)"
proof -
  assume x: "x \<noteq> 0"
  have "\<lfloor>log 2 \<bar>x\<bar>\<rfloor> + 1 \<le> expo x + 1" by (simp add: expo_def)
  then have m: "pow2 (\<lfloor>log 2 \<bar>x\<bar>\<rfloor> + 1) \<le> pow2 (expo x + 1)" by (rule pow2_mono)
  have "\<bar>x\<bar> < pow2 (\<lfloor>log 2 \<bar>x\<bar>\<rfloor> + 1)"
    unfolding pow2_powr by (rule floor_log2_bounds(2) [OF x])
  then show ?thesis using m by (rule less_le_trans)
qed

lemma expo_lower: "x \<noteq> 0 \<Longrightarrow> - 1022 < expo x \<Longrightarrow> pow2 (expo x) \<le> \<bar>x\<bar>"
proof -
  assume x: "x \<noteq> 0" and n: "- 1022 < expo x"
  from n have e: "expo x = \<lfloor>log 2 \<bar>x\<bar>\<rfloor>" by (simp add: expo_def max_def split: if_splits)
  show ?thesis unfolding e pow2_powr by (rule floor_log2_bounds(1) [OF x])
qed

lemma expo_mono: "x \<noteq> 0 \<Longrightarrow> \<bar>x\<bar> \<le> \<bar>y\<bar> \<Longrightarrow> expo x \<le> expo y"
proof -
  assume "x \<noteq> 0" "\<bar>x\<bar> \<le> \<bar>y\<bar>"
  then have "log 2 \<bar>x\<bar> \<le> log 2 \<bar>y\<bar>" by simp
  then have "\<lfloor>log 2 \<bar>x\<bar>\<rfloor> \<le> \<lfloor>log 2 \<bar>y\<bar>\<rfloor>" by (rule floor_mono)
  then show ?thesis by (simp add: expo_def)
qed

lemma round_half_even_of_int: "round_half_even (of_int n) = n"
  by (simp add: round_half_even_def)

lemma round_half_even_mono: "y \<le> z \<Longrightarrow> round_half_even y \<le> round_half_even z"
proof -
  assume yz: "y \<le> z"
  then have "\<lfloor>y\<rfloor> \<le> \<lfloor>z\<rfloor>" by (rule floor_mono)
  then consider "\<lfloor>y\<rfloor> = \<lfloor>z\<rfloor>" | "\<lfloor>y\<rfloor> + 1 \<le> \<lfloor>z\<rfloor>" by linarith
  then show ?thesis
  proof cases
    case 1
    then have "y - of_int \<lfloor>y\<rfloor> \<le> z - of_int \<lfloor>z\<rfloor>" using yz by simp
    then show ?thesis using 1 by (auto simp: round_half_even_def Let_def)
  next
    case 2
    have "round_half_even y \<le> \<lfloor>y\<rfloor> + 1" by (simp add: round_half_even_def Let_def)
    moreover have "\<lfloor>z\<rfloor> \<le> round_half_even z" by (simp add: round_half_even_def Let_def)
    ultimately show ?thesis using 2 by linarith
  qed
qed

lemma round_half_even_le: "y \<le> of_int n \<Longrightarrow> round_half_even y \<le> n"
  using round_half_even_mono [of y "of_int n"] by (simp add: round_half_even_of_int)

lemma round_half_even_ge: "of_int n \<le> y \<Longrightarrow> n \<le> round_half_even y"
  using round_half_even_mono [of "of_int n" y] by (simp add: round_half_even_of_int)

lemma round_half_even_minus: "round_half_even (- y) = - round_half_even y"
proof (cases "y = of_int \<lfloor>y\<rfloor>")
  case True
  then obtain n where "y = of_int n" ..
  then have "- y = of_int (- n)" by simp
  then show ?thesis using \<open>y = of_int n\<close> by (simp only: round_half_even_of_int)
next
  case False
  then have c: "\<lceil>y\<rceil> = \<lfloor>y\<rfloor> + 1" by (simp add: ceiling_altdef)
  have f: "\<lfloor>- y\<rfloor> = - \<lfloor>y\<rfloor> - 1" using c by (simp add: floor_minus)
  have d: "- y - of_int (- \<lfloor>y\<rfloor> - 1) = 1 - (y - of_int \<lfloor>y\<rfloor>)" by simp
  have p: "even (- \<lfloor>y\<rfloor> - 1) \<longleftrightarrow> odd \<lfloor>y\<rfloor>" by simp
  show ?thesis
    unfolding round_half_even_def Let_def f d p by (auto simp: field_simps)
qed

lemma round_double_0: "round_double 0 = 0"
  by (simp add: round_double_def)

lemma expo_minus: "expo (- x) = expo x"
  by (simp add: expo_def)

lemma round_double_minus: "round_double (- x) = - round_double x"
  by (simp add: round_double_def expo_minus round_half_even_minus)

lemma round_double_upper:
  assumes "0 < x"
  shows "round_double x \<le> pow2 (expo x + 1)"
proof -
  let ?q = "pow2 (expo x - 52)"
  have x: "x \<noteq> 0" "\<bar>x\<bar> = x" using assms by simp_all
  have q: "0 < ?q" by (rule pow2_pos)
  have s: "pow2 (expo x + 1) = ?q * pow2 53"
    using pow2_add [of "expo x - 52" 53] by (simp add: algebra_simps)
  have "x < ?q * pow2 53" using expo_upper [OF x(1)] x(2) s by simp
  then have "x / ?q < pow2 53" using q by (simp add: field_simps)
  then have "x / ?q \<le> of_int (2 ^ 53)" by (simp add: pow2_def)
  then have "round_half_even (x / ?q) \<le> 2 ^ 53" by (rule round_half_even_le)
  then have "of_int (round_half_even (x / ?q)) \<le> pow2 53"
    by (simp add: pow2_def) 
  then have "?q * of_int (round_half_even (x / ?q)) \<le> ?q * pow2 53"
    using q by simp
  then show ?thesis using x(1) s by (simp add: round_double_def)
qed

lemma round_double_lower:
  assumes "0 < x" "- 1022 < expo x"
  shows "pow2 (expo x) \<le> round_double x"
proof -
  let ?q = "pow2 (expo x - 52)"
  have x: "x \<noteq> 0" "\<bar>x\<bar> = x" using assms by simp_all
  have q: "0 < ?q" by (rule pow2_pos)
  have s: "pow2 (expo x) = ?q * pow2 52"
    using pow2_add [of "expo x - 52" 52] by (simp add: algebra_simps)
  have "?q * pow2 52 \<le> x" using expo_lower [OF x(1) assms(2)] x(2) s by simp
  then have "pow2 52 \<le> x / ?q" using q by (simp add: field_simps)
  then have "of_int (2 ^ 52) \<le> x / ?q" by (simp add: pow2_def)
  then have "2 ^ 52 \<le> round_half_even (x / ?q)" by (rule round_half_even_ge)
  then have "pow2 52 \<le> of_int (round_half_even (x / ?q))"
    by (simp add: pow2_def)
  then have "?q * pow2 52 \<le> ?q * of_int (round_half_even (x / ?q))"
    using q by simp
  then show ?thesis using x(1) s by (simp add: round_double_def)
qed

lemma round_double_nonneg: "0 \<le> x \<Longrightarrow> 0 \<le> round_double x"
proof -
  assume x: "0 \<le> x"
  have q: "0 < pow2 (expo x - 52)" by (rule pow2_pos)
  then have "of_int 0 \<le> x / pow2 (expo x - 52)" using x by simp
  then have "0 \<le> round_half_even (x / pow2 (expo x - 52))" by (rule round_half_even_ge)
  then show ?thesis using q by (simp add: round_double_def)
qed

lemma round_double_mono_pos:
  assumes "0 < x" "x \<le> y"
  shows "round_double x \<le> round_double y"
proof -
  have y: "0 < y" using assms by simp
  have e: "expo x \<le> expo y" using assms by (intro expo_mono) simp_all
  show ?thesis
  proof (cases "expo x = expo y")
    case True
    let ?q = "pow2 (expo y - 52)"
    have q: "0 < ?q" by (rule pow2_pos)
    then have "x / ?q \<le> y / ?q" using assms(2) by (simp add: divide_right_mono)
    then have "round_half_even (x / ?q) \<le> round_half_even (y / ?q)"
      by (rule round_half_even_mono)
    then have "?q * of_int (round_half_even (x / ?q)) \<le> ?q * of_int (round_half_even (y / ?q))"
      using q by simp
    then show ?thesis using assms(1) y True by (simp add: round_double_def)
  next
    case False
    then have l: "expo x + 1 \<le> expo y" using e by simp
    then have n: "- 1022 < expo y" using expo_ge [of x] by linarith
    have "round_double x \<le> pow2 (expo x + 1)" using assms(1) by (rule round_double_upper)
    also have "\<dots> \<le> pow2 (expo y)" using l by (rule pow2_mono)
    also have "\<dots> \<le> round_double y" using y n by (rule round_double_lower)
    finally show ?thesis .
  qed
qed

lemma round_double_mono: "x \<le> y \<Longrightarrow> round_double x \<le> round_double y"
proof -
  assume xy: "x \<le> y"
  consider "0 < x" | "x \<le> 0" "0 \<le> y" | "y < 0" by linarith
  then show ?thesis
  proof cases
    case 1
    then show ?thesis using xy by (rule round_double_mono_pos)
  next
    case 2
    have "0 \<le> round_double (- x)" using 2(1) by (intro round_double_nonneg) simp
    then have "round_double x \<le> 0" by (simp add: round_double_minus)
    also have "0 \<le> round_double y" using 2(2) by (rule round_double_nonneg)
    finally show ?thesis .
  next
    case 3
    then have "round_double (- y) \<le> round_double (- x)"
      using xy by (intro round_double_mono_pos) simp_all
    then show ?thesis by (simp add: round_double_minus)
  qed
qed

lemma round_double_grid:
  assumes "x = of_int m * pow2 k" "\<bar>m\<bar> < 2 ^ 53" "- 1074 \<le> k"
  shows "round_double x = x"
proof (cases "m = 0")
  case True
  then show ?thesis using assms(1) by (simp add: round_double_def)
next
  case False
  then have x: "x \<noteq> 0" using assms(1) pow2_pos [of k] by simp
  have ax: "\<bar>x\<bar> = of_int \<bar>m\<bar> * pow2 k"
    using assms(1) pow2_pos [of k] by (simp add: abs_mult)
  have "of_int \<bar>m\<bar> < (pow2 53 :: real)"
  proof -
    have "(of_int \<bar>m\<bar> :: real) < of_int (2 ^ 53)" using assms(2) by (simp only: of_int_less_iff)
    then show ?thesis by (simp add: pow2_def)
  qed
  then have "\<bar>x\<bar> < pow2 53 * pow2 k" using pow2_pos [of k] by (simp add: ax)
  then have u: "\<bar>x\<bar> < pow2 (k + 53)" using pow2_add [of 53 k] by (simp add: add.commute)
  have E: "expo x \<le> k + 52"
  proof (rule ccontr)
    assume "\<not> expo x \<le> k + 52"
    then have g: "k + 53 \<le> expo x" by simp
    then have "- 1022 < expo x" using assms(3) by linarith
    then have "pow2 (expo x) \<le> \<bar>x\<bar>" using x by (intro expo_lower)
    moreover have "pow2 (k + 53) \<le> pow2 (expo x)" using g by (rule pow2_mono)
    ultimately show False using u by linarith
  qed
  define j where "j = k - (expo x - 52)"
  define q where "q = pow2 (expo x - 52)"
  have j: "0 \<le> j" "k = (expo x - 52) + j" using E by (simp_all add: j_def)
  have pk: "pow2 k = q * pow2 j" unfolding q_def using pow2_add j(2) by metis
  have q: "q \<noteq> 0" unfolding q_def using pow2_pos [of "expo x - 52"] by simp
  have xq: "x = q * (of_int m * pow2 j)" using assms(1) pk by simp
  have pj: "pow2 j = of_int (2 ^ nat j)" using j(1) by (rule pow2_nonneg_int)
  have "x / q = of_int m * pow2 j" by (subst xq) (simp add: q)
  also have "\<dots> = of_int (m * 2 ^ nat j)" unfolding pj by simp
  finally have "round_half_even (x / q) = m * 2 ^ nat j"
    by (simp only: round_half_even_of_int)
  then have "round_double x = q * of_int (m * 2 ^ nat j)"
    using x unfolding q_def by (simp add: round_double_def)
  also have "\<dots> = q * (of_int m * pow2 j)" unfolding pj by simp
  also have "\<dots> = x" by (rule xq [symmetric])
  finally show ?thesis .
qed

lemma round_double_of_int: "\<bar>n\<bar> < 2 ^ 53 \<Longrightarrow> round_double (of_int n) = of_int n"
  by (rule round_double_grid [where m = n and k = 0]) (simp_all add: pow2_def)

lemma round_double_eval:
  assumes "pow2 e \<le> \<bar>x\<bar>" "\<bar>x\<bar> < pow2 (e + 1)" "- 1022 \<le> e"
  shows "round_double x = pow2 (e - 52) * of_int (round_half_even (x / pow2 (e - 52)))"
proof -
  have "x \<noteq> 0" using assms(1) pow2_pos [of e] by auto
  then show ?thesis using expo_eq [OF assms] by (simp add: round_double_def)
qed

lemma round_half_even_below:
  assumes "0 \<le> t" "t < 1 / 2"
  shows "round_half_even (of_int M - t) = M"
proof (cases "t = 0")
  case True
  then show ?thesis by (simp add: round_half_even_of_int)
next
  case False
  then have f: "\<lfloor>of_int M - t\<rfloor> = M - 1" using assms by (simp add: floor_eq_iff)
  show ?thesis using assms False by (simp add: round_half_even_def Let_def f)
qed

lemma round_half_even_tie_even:
  assumes "even M"
  shows "round_half_even (of_int M - 1 / 2) = M"
proof -
  have f: "\<lfloor>of_int M - 1 / 2 :: real\<rfloor> = M - 1" by (simp add: floor_eq_iff)
  show ?thesis using assms by (simp add: round_half_even_def Let_def f)
qed

lemma round_half_even_error: "\<bar>of_int (round_half_even y) - y\<bar> \<le> 1 / 2"
proof -
  have "of_int \<lfloor>y\<rfloor> \<le> y" "y < of_int \<lfloor>y\<rfloor> + 1" by linarith+
  then show ?thesis by (auto simp: round_half_even_def Let_def)
qed

lemma round_double_error: "\<bar>round_double x - x\<bar> \<le> pow2 (expo x - 52) / 2"
proof (cases "x = 0")
  case True
  then show ?thesis using pow2_pos [of "expo x - 52"] by (simp add: round_double_def)
next
  case False
  define q where "q = pow2 (expo x - 52)"
  have q: "0 < q" unfolding q_def by (rule pow2_pos)
  have "round_double x - x = q * (of_int (round_half_even (x / q)) - x / q)"
    using False q by (simp add: round_double_def q_def algebra_simps)
  then have "\<bar>round_double x - x\<bar> = q * \<bar>of_int (round_half_even (x / q)) - x / q\<bar>"
    using q by (simp add: abs_mult)
  also have "\<dots> \<le> q * (1 / 2)"
    using q round_half_even_error [of "x / q"] by (intro mult_left_mono) simp_all
  finally show ?thesis by (simp add: q_def)
qed

lemma expo_less:
  assumes "x \<noteq> 0" "\<bar>x\<bar> < pow2 e" "- 1022 < e"
  shows "expo x \<le> e - 1"
proof (rule ccontr)
  assume "\<not> expo x \<le> e - 1"
  then have g: "e \<le> expo x" by simp
  then have "- 1022 < expo x" using assms(3) by linarith
  then have "pow2 (expo x) \<le> \<bar>x\<bar>" using assms(1) by (intro expo_lower)
  moreover have "pow2 e \<le> pow2 (expo x)" using g by (rule pow2_mono)
  ultimately show False using assms(2) by linarith
qed

lemma round_half_even_near:
  assumes "0 \<le> t" "t \<le> 1 / 2" "even M"
  shows "round_half_even (of_int M - t) = M"
proof (cases "t = 1 / 2")
  case True
  then show ?thesis using assms(3) by (simp only: round_half_even_tie_even)
next
  case False
  then have "t < 1 / 2" using assms(2) by simp
  then show ?thesis using assms(1) by (intro round_half_even_below)
qed

lemma round_double_near_below:
  fixes D :: int
  assumes D: "0 < D" "D < 2 ^ 52"
    and e: "pow2 e \<le> of_int D" "of_int D < pow2 (e + 1)" "0 \<le> e"
    and d: "0 \<le> \<delta>" "\<delta> \<le> pow2 (e - 52) / 2"
    and p: "of_int D = pow2 e \<Longrightarrow> \<delta> \<le> pow2 (e - 52) / 4"
  shows "round_double (of_int D - \<delta>) = of_int D"
proof -
  define q where "q = pow2 (e - 52)"
  define M where "M = D * 2 ^ nat (52 - e)"
  have q: "0 < q" unfolding q_def by (rule pow2_pos)
  have e52: "e < 52"
  proof (rule ccontr)
    assume "\<not> e < 52"
    then have "pow2 52 \<le> pow2 e" by (intro pow2_mono) simp
    then have "(of_int (2 ^ 52) :: real) \<le> of_int D" using e(1) by (simp add: pow2_def)
    then have "(2 :: int) ^ 52 \<le> D" by (simp only: of_int_le_iff)
    then show False using D(2) by simp
  qed
  have pe: "pow2 e = q * 2 ^ 52"
    using pow2_add [of "e - 52" 52] by (simp add: q_def pow2_def)
  have "pow2 (e - 52) * pow2 (52 - e) = 1"
    using pow2_add [of "e - 52" "52 - e"] by (simp add: pow2_def)
  then have inv: "q * of_int (2 ^ nat (52 - e)) = 1"
    using e52 pow2_nonneg_int [of "52 - e"] by (simp add: q_def)
  have "q * of_int M = of_int D * (q * of_int (2 ^ nat (52 - e)))"
    by (simp add: M_def)
  also have "\<dots> = of_int D" by (simp only: inv mult_1_right)
  finally have DM: "of_int D = q * of_int M" by (rule sym)
  have "0 < nat (52 - e)" using e52 by simp
  then have evM: "even M" unfolding M_def by simp
  define t where "t = \<delta> / q"
  have t: "0 \<le> t" "t \<le> 1 / 2" "\<delta> = q * t"
    using d q by (simp_all add: t_def q_def field_simps)
  show ?thesis
  proof (cases "of_int D = pow2 e")
    case False
    then have "pow2 e < of_int D" using e(1) by simp
    then have "q * 2 ^ 52 < q * of_int M" by (simp only: pe DM [symmetric])
    then have "(of_int (2 ^ 52) :: real) < of_int M" using q by simp
    then have "2 ^ 52 < M" by (simp only: of_int_less_iff)
    then have "2 ^ 52 + 1 \<le> M" by simp
    then have "(of_int (2 ^ 52 + 1) :: real) \<le> of_int M" by (simp only: of_int_le_iff)
    then have "q * of_int (2 ^ 52 + 1) \<le> q * of_int M" using q by simp
    then have g: "pow2 e + q \<le> of_int D" using pe DM by (simp add: algebra_simps)
    have z1: "pow2 e \<le> \<bar>of_int D - \<delta>\<bar>" using g d q by (simp add: q_def)
    have z2: "\<bar>of_int D - \<delta>\<bar> < pow2 (e + 1)" using g d q e(2) pow2_pos [of e] by (simp add: q_def)
    have "(of_int D - \<delta>) / q = of_int M - t"
      using q by (simp add: DM t(3) field_simps)
    then have "round_half_even ((of_int D - \<delta>) / q) = M"
      using t(1,2) evM by (simp only: round_half_even_near)
    then have "round_double (of_int D - \<delta>) = q * of_int M"
      using round_double_eval [OF z1 z2] e(3) by (simp add: q_def)
    then show ?thesis using DM by simp
  next
    case True
    then have d4: "\<delta> \<le> q / 4" using p by (simp add: q_def)
    show ?thesis
    proof (cases "\<delta> = 0")
      case True
      then show ?thesis using D by (simp add: round_double_of_int)
    next
      case False
      then have dp: "0 < \<delta>" using d(1) by simp
      have h: "pow2 (e - 1) * 2 = pow2 e"
        using pow2_add [of "e - 1" 1] by (simp add: pow2_def)
      have qh: "pow2 (e - 1 - 52) * 2 = q"
        using pow2_add [of "e - 1 - 52" 1] by (simp add: pow2_def q_def)
      have qe: "q \<le> pow2 e" using pow2_mono [of "e - 52" e] by (simp add: q_def)
      have z1: "pow2 (e - 1) \<le> \<bar>of_int D - \<delta>\<bar>" using True h d4 qe q by simp
      have z2: "\<bar>of_int D - \<delta>\<bar> < pow2 (e - 1 + 1)" using True dp d4 qe q by simp
      have "(of_int D - \<delta>) / pow2 (e - 1 - 52) = of_int (2 * M) - 2 * t"
        using q qh [symmetric] pow2_pos [of "e - 1 - 52"] by (simp add: DM t(3) field_simps)
      moreover have "0 \<le> 2 * t" "2 * t \<le> 1 / 2" using t(1) d4 q by (simp_all add: t_def field_simps)
      ultimately have "round_half_even ((of_int D - \<delta>) / pow2 (e - 1 - 52)) = 2 * M"
        by (simp only: round_half_even_near even_mult_iff even_numeral simp_thms)
      then have "round_double (of_int D - \<delta>) = pow2 (e - 1 - 52) * of_int (2 * M)"
        using round_double_eval [OF z1 z2] e(3) by simp
      also have "\<dots> = q * of_int M" using qh [symmetric] by simp
      finally show ?thesis using DM by simp
    qed
  qed
qed

lemma expo_of_int_pos:
  fixes D :: int
  assumes "0 < D"
  shows "0 \<le> expo (of_int D)"
proof -
  have "1 \<le> \<bar>real_of_int D\<bar>" using assms by simp
  then have "0 \<le> log 2 \<bar>real_of_int D\<bar>" by simp
  then show ?thesis by (simp add: expo_def)
qed

lemma float_sub_ge:
  assumes "real_of_int d \<le> a - b" "\<bar>d\<bar> < 2 ^ 53"
  shows "real_of_int d \<le> float_sub a b"
proof -
  have "round_double (of_int d) \<le> round_double (a - b)"
    using assms(1) by (rule round_double_mono)
  then show ?thesis using assms(2) by (simp add: float_sub_def round_double_of_int)
qed


subsection \<open>Facts about \<open>update\<close>\<close>

lemma state_complete_session: "state (complete_session t) = STOPPED"
  by (simp add: complete_session_def start_break_def start_work_def Let_def)

lemma complete_session_remaining:
  "complete_session (t\<lparr>remaining_seconds := r\<rparr>) = complete_session t"
  by (simp add: complete_session_def start_break_def start_work_def Let_def)

lemma complete_session_start_time:
  "complete_session (t\<lparr>start_time := x\<rparr>) = (complete_session t)\<lparr>start_time := x\<rparr>"
  by (simp add: complete_session_def start_break_def start_work_def Let_def)


lemma py_int_ge: "real_of_int d \<le> x \<Longrightarrow> d \<le> py_int x"
  unfolding py_int_def by (auto simp: le_floor_iff le_ceiling_iff intro: order_trans)

lemma update_not_running: "state t \<noteq> RUNNING \<Longrightarrow> update now t = Inr (t, False)"
  by (simp add: update_def)

lemma update_expired:
  assumes "state t = RUNNING" "start_time t = Some s"
    "real_of_int (total_seconds t) \<le> float_sub now s"
  shows "update now t = Inr (complete_session t, True)"
proof -
  have "total_seconds t \<le> py_int (float_sub now s)" using assms(3) by (rule py_int_ge)
  then have "max 0 (total_seconds t - py_int (float_sub now s)) = 0" by simp
  then show ?thesis using assms(1,2)
    by (simp add: update_def Let_def complete_session_remaining)
qed





lemma running_timer_facts:
  "state running_timer = RUNNING" "start_time running_timer = Some 100"
  "total_seconds running_timer = 1500" "session_type running_timer = WORK"
  by (simp_all add: running_timer_def PomodoroTimer_init_def settings)



subsection \<open>Pause and resume\<close>








subsection \<open>Skip\<close>

lemma skip_running:
  "state t = RUNNING \<Longrightarrow>
     skip now t =
       t\<lparr>start_time := Some (float_sub now (round_double (real_of_int (total_seconds t)))),
         remaining_seconds := 0\<rparr>"
  by (simp add: skip_def)

lemma update_after_skip_running:
  assumes "state t = RUNNING"
    "real_of_int (total_seconds t) \<le>
       float_sub now' (float_sub now (round_double (real_of_int (total_seconds t))))"
  shows "update now' (skip now t) =
    Inr ((complete_session t)
           \<lparr>start_time := Some (float_sub now (round_double (real_of_int (total_seconds t))))\<rparr>,
         True)"
proof -
  let ?b = "float_sub now (round_double (real_of_int (total_seconds t)))"
  let ?t = "t\<lparr>start_time := Some ?b, remaining_seconds := 0\<rparr>"
  have sk: "skip now t = ?t" using assms(1) by (rule skip_running)
  have "real_of_int (total_seconds ?t) \<le> float_sub now' ?b" using assms(2) by simp
  from update_expired [of ?t, OF _ _ this] assms(1)
  have "update now' ?t = Inr (complete_session ?t, True)" by simp
  then show ?thesis
    by (simp add: sk complete_session_remaining complete_session_start_time)
qed

text \<open>
  The back-dating subtraction of \<open>skip()\<close> is exact when the clock reading is a double
  \<open>m * 2 ^ k\<close> below \<open>2 ^ 53\<close> (so \<open>k \<le> 0\<close>) that is not smaller than the duration.
\<close>

lemma skip_back_date_exact:
  assumes "now = of_int m * pow2 k" "0 \<le> m" "m < 2 ^ 53" "- 1074 \<le> k" "k \<le> 0"
    "0 \<le> d" "real_of_int d \<le> now"
  shows "float_sub now (round_double (real_of_int d)) = now - real_of_int d"
    and "\<bar>d\<bar> < 2 ^ 53"
proof -
  have p: "pow2 k * 2 ^ nat (- k) = 1" "0 < pow2 k" "pow2 k \<le> 1"
    using assms(5) by (simp_all add: pow2_def field_simps)
  have "real_of_int d \<le> of_int m * pow2 k" using assms(1,7) by simp
  also have "\<dots> \<le> of_int m * 1" using p(3) assms(2) by (intro mult_left_mono) simp_all
  finally have dm: "d \<le> m" by simp
  then show d53: "\<bar>d\<bar> < 2 ^ 53" using assms(3,6) by simp
  then have rd: "round_double (real_of_int d) = real_of_int d" by (rule round_double_of_int)
  define n where "n = m - d * 2 ^ nat (- k)"
  have "real_of_int d * 2 ^ nat (- k) \<le> (of_int m * pow2 k) * 2 ^ nat (- k)"
    using assms(1,7) by (intro mult_right_mono) simp_all
  also have "\<dots> = of_int m" using p(1) by (simp add: mult.assoc)
  finally have "real_of_int (d * 2 ^ nat (- k)) \<le> real_of_int m" by simp
  then have "d * 2 ^ nat (- k) \<le> m" by (simp only: of_int_le_iff)
  moreover have "0 \<le> d * 2 ^ nat (- k)" using assms(6) by simp
  ultimately have n: "\<bar>n\<bar> < 2 ^ 53" using assms(3) by (simp add: n_def)
  have "of_int n * pow2 k = of_int m * pow2 k - real_of_int d * (pow2 k * 2 ^ nat (- k))"
    by (simp add: n_def algebra_simps)
  then have "now - real_of_int d = of_int n * pow2 k" using p(1) assms(1) by simp
  then have "round_double (now - real_of_int d) = now - real_of_int d"
    using n assms(4) by (intro round_double_grid)
  then show "float_sub now (round_double (real_of_int d)) = now - real_of_int d"
    by (simp add: float_sub_def rd)
qed

text \<open>
  When the clock reading is smaller than the duration, the back-dated start time is the
  rounded difference; the elapsed time computed from it at the same or a later clock
  value still reaches the duration, for a duration below \<open>2 ^ 52\<close>.
\<close>

lemma skip_back_date_early:
  fixes D :: int
  assumes "0 \<le> now" "now < of_int D" "D < 2 ^ 52" "now \<le> now'"
  shows "of_int D \<le> float_sub now' (float_sub now (round_double (of_int D)))"
proof -
  have D: "0 < D" using assms(1,2) by simp
  have rD: "round_double (of_int D) = of_int D" using D assms(3) by (intro round_double_of_int) simp
  define c where "c = now - of_int D"
  define a where "a = round_double c"
  define \<delta> where "\<delta> = a - c"
  define e where "e = expo (real_of_int D)"
  have e0: "0 \<le> e" unfolding e_def using D by (rule expo_of_int_pos)
  have Dn: "real_of_int D \<noteq> 0" "\<bar>real_of_int D\<bar> = of_int D" using D by simp_all
  have e1: "pow2 e \<le> of_int D" using expo_lower [of "real_of_int D"] Dn e0 by (simp add: e_def)
  have e2: "of_int D < pow2 (e + 1)" using expo_upper [of "real_of_int D"] Dn by (simp add: e_def)
  have c: "c < 0" "\<bar>c\<bar> \<le> \<bar>real_of_int D\<bar>" "c \<noteq> 0" using assms(1,2) by (simp_all add: c_def)
  have na: "now - a = of_int D - \<delta>" by (simp add: \<delta>_def c_def)
  have "of_int D \<le> round_double (now - a)"
  proof (cases "\<delta> \<le> 0")
    case True
    then have "of_int D \<le> now - a" using na by simp
    then have "round_double (of_int D) \<le> round_double (now - a)" by (rule round_double_mono)
    then show ?thesis using rD by simp
  next
    case False
    then have dp: "0 \<le> \<delta>" "0 < \<delta>" by simp_all
    have "\<delta> \<le> \<bar>round_double c - c\<bar>" by (simp add: \<delta>_def a_def)
    also have "\<dots> \<le> pow2 (expo c - 52) / 2" by (rule round_double_error)
    finally have err: "\<delta> \<le> pow2 (expo c - 52) / 2" .
    have "expo c \<le> e" unfolding e_def using c(3,2) by (rule expo_mono)
    then have "pow2 (expo c - 52) \<le> pow2 (e - 52)" by (intro pow2_mono) simp
    then have d2: "\<delta> \<le> pow2 (e - 52) / 2" using err by simp
    have d4: "\<delta> \<le> pow2 (e - 52) / 4" if eq: "of_int D = pow2 e"
    proof -
      have "now \<noteq> 0"
      proof
        assume "now = 0"
        then have "c = - of_int D" by (simp add: c_def)
        then have "a = c" using rD by (simp add: a_def round_double_minus)
        then show False using dp(2) by (simp add: \<delta>_def)
      qed
      then have "\<bar>c\<bar> < pow2 e" using assms(1,2) eq by (simp add: c_def)
      then have "expo c \<le> e - 1" using c(3) e0 by (intro expo_less) simp_all
      then have "pow2 (expo c - 52) \<le> pow2 (e - 1 - 52)" by (intro pow2_mono) simp
      moreover have "pow2 (e - 1 - 52) * 2 = pow2 (e - 52)"
        using pow2_add [of "e - 1 - 52" 1] by (simp add: pow2_def)
      ultimately show ?thesis using err by simp
    qed
    have "round_double (of_int D - \<delta>) = of_int D"
      using D assms(3) e1 e2 e0 dp(1) d2 d4 by (rule round_double_near_below)
    then show ?thesis using na by simp
  qed
  moreover have "round_double (now - a) \<le> round_double (now' - a)"
    using assms(4) by (intro round_double_mono) simp
  ultimately show ?thesis by (simp add: float_sub_def rD a_def c_def)
qed

lemma update_after_skip_not_running:
  assumes "state t \<noteq> RUNNING"
  shows "skip now t = complete_session t"
    and "update now' (skip now t) = Inr (complete_session t, False)"
  using assms by (simp_all add: skip_def update_not_running state_complete_session)

lemma run_update_completed:
  "update now (timer a) = Inr (t, True) \<Longrightarrow>
     run_update now today a = Inr (on_session_complete today (a\<lparr>timer := t\<rparr>))"
  by (simp add: run_update_def)

lemma run_update_not_completed:
  "update now (timer a) = Inr (t, False) \<Longrightarrow> run_update now today a = Inr (a\<lparr>timer := t\<rparr>)"
  by (simp add: run_update_def)

lemma handle_input_k:
  "\<not> show_help a \<Longrightarrow>
     handle_input dialogs now (CHR ''k'') a = Inr (a\<lparr>timer := skip now (timer a)\<rparr>)"
  by (simp add: handle_input_def)

text \<open>
  C2, as stated, at the initial timer (Stopped, Work). A running work session that
  expires makes \<open>update()\<close> return \<open>True\<close>, the signal on which the loop calls the
  completion handler. After \<open>skip()\<close> on the stopped timer the transition has been made
  by \<open>skip()\<close> itself and the update of the loop returns \<open>False\<close>: no signal reaches the
  loop.
\<close>

theorem skip_not_running_counterexample:
  "update 1500 (PomodoroTimer_init\<lparr>state := RUNNING, start_time := Some 0\<rparr>) =
     Inr (complete_session (PomodoroTimer_init\<lparr>start_time := Some 0\<rparr>), True) \<and>
   update 1500 (skip 0 PomodoroTimer_init) = Inr (complete_session PomodoroTimer_init, False)"
proof -
  let ?t = "PomodoroTimer_init\<lparr>state := RUNNING, start_time := Some 0\<rparr>"
  have t: "state ?t = RUNNING" "start_time ?t = Some 0" "total_seconds ?t = 1500"
    by (simp_all add: PomodoroTimer_init_def settings)
  have "real_of_int 1500 \<le> float_sub 1500 0" by (rule float_sub_ge) simp_all
  then have "update 1500 ?t = Inr (complete_session ?t, True)"
    by (intro update_expired [where s = 0]) (simp_all add: t)
  then have 1: "update 1500 ?t =
      Inr (complete_session (PomodoroTimer_init\<lparr>start_time := Some 0\<rparr>), True)"
    by (simp add: complete_session_def start_break_def start_work_def Let_def
        PomodoroTimer_init_def)
  have "state PomodoroTimer_init \<noteq> RUNNING" by (simp add: PomodoroTimer_init_def)
  then have 2: "update 1500 (skip 0 PomodoroTimer_init) =
      Inr (complete_session PomodoroTimer_init, False)"
    by (rule update_after_skip_not_running)
  show ?thesis using 1 2 by (intro conjI)
qed

text \<open>
  C2, amended. The key \<open>k\<close> calls \<open>skip()\<close>. On a Running timer \<open>skip()\<close> only back-dates
  \<open>start_time\<close> to the float difference \<open>now - total_seconds\<close> and sets
  \<open>remaining_seconds\<close> to 0; the next \<open>update()\<close> of the loop whose computed elapsed time
  reaches \<open>total_seconds\<close> makes the completion transition and returns \<open>True\<close>, as it
  does on natural expiry, so the loop calls the completion handler; the timer is then
  \<open>complete_session\<close> of the timer before the skip, with the back-dated \<open>start_time\<close>.
  That is every update at a clock value \<open>now' \<ge> now\<close> when the reading \<open>now\<close> of the skip
  is a double \<open>m * 2 ^ k\<close> with \<open>0 \<le> now < 2 ^ 53\<close> and \<open>0 \<le> total_seconds < 2 ^ 52\<close>;
  the back-dating is exact, \<open>start_time = now - total_seconds\<close>, when moreover
  \<open>total_seconds \<le> now\<close>. On a
  timer that is not Running \<open>skip()\<close> makes the transition itself, and the next
  \<open>update()\<close> returns \<open>False\<close>: the completion handler is not called.
\<close>

theorem skip_then_update:
  "(state (timer a) = RUNNING \<longrightarrow>
      skip now (timer a) =
        (timer a)\<lparr>start_time :=
                     Some (float_sub now (round_double (real_of_int (total_seconds (timer a))))),
                   remaining_seconds := 0\<rparr>) \<and>
   (state (timer a) = RUNNING \<and>
    real_of_int (total_seconds (timer a)) \<le>
      float_sub now' (float_sub now (round_double (real_of_int (total_seconds (timer a))))) \<longrightarrow>
      update now' (skip now (timer a)) =
        Inr ((complete_session (timer a))
               \<lparr>start_time :=
                  Some (float_sub now (round_double (real_of_int (total_seconds (timer a)))))\<rparr>,
             True) \<and>
      run_update now' today (a\<lparr>timer := skip now (timer a)\<rparr>) =
        Inr (on_session_complete today
               (a\<lparr>timer := (complete_session (timer a))
                   \<lparr>start_time :=
                      Some (float_sub now
                              (round_double (real_of_int (total_seconds (timer a)))))\<rparr>\<rparr>))) \<and>
   (state (timer a) = RUNNING \<and> now = of_int m * pow2 k \<and> 0 \<le> m \<and> m < 2 ^ 53 \<and>
    - 1074 \<le> k \<and> k \<le> 0 \<and> 0 \<le> total_seconds (timer a) \<and>
    total_seconds (timer a) < 2 ^ 52 \<and> now \<le> now' \<longrightarrow>
      update now' (skip now (timer a)) =
        Inr ((complete_session (timer a))
               \<lparr>start_time :=
                  Some (float_sub now (round_double (real_of_int (total_seconds (timer a)))))\<rparr>,
             True) \<and>
      run_update now' today (a\<lparr>timer := skip now (timer a)\<rparr>) =
        Inr (on_session_complete today
               (a\<lparr>timer := (complete_session (timer a))
                   \<lparr>start_time :=
                      Some (float_sub now
                              (round_double (real_of_int (total_seconds (timer a)))))\<rparr>\<rparr>)) \<and>
      (real_of_int (total_seconds (timer a)) \<le> now \<longrightarrow>
         float_sub now (round_double (real_of_int (total_seconds (timer a)))) =
           now - real_of_int (total_seconds (timer a)))) \<and>
   (state (timer a) = RUNNING \<and> start_time (timer a) = Some s \<and>
      real_of_int (total_seconds (timer a)) \<le> float_sub now' s \<longrightarrow>
      update now' (timer a) = Inr (complete_session (timer a), True) \<and>
      run_update now' today a =
        Inr (on_session_complete today (a\<lparr>timer := complete_session (timer a)\<rparr>))) \<and>
   (state (timer a) \<noteq> RUNNING \<longrightarrow>
      skip now (timer a) = complete_session (timer a) \<and>
      update now' (skip now (timer a)) = Inr (complete_session (timer a), False) \<and>
      run_update now' today (a\<lparr>timer := skip now (timer a)\<rparr>) =
        Inr (a\<lparr>timer := complete_session (timer a)\<rparr>)) \<and>
   (\<not> show_help a \<longrightarrow>
      handle_input dialogs now (CHR ''k'') a = Inr (a\<lparr>timer := skip now (timer a)\<rparr>))"
proof (intro conjI impI)
  assume "state (timer a) = RUNNING"
  then show "skip now (timer a) =
        (timer a)\<lparr>start_time :=
                     Some (float_sub now (round_double (real_of_int (total_seconds (timer a))))),
                   remaining_seconds := 0\<rparr>"
    by (rule skip_running)
next
  let ?b = "float_sub now (round_double (real_of_int (total_seconds (timer a))))"
  assume r: "state (timer a) = RUNNING \<and> real_of_int (total_seconds (timer a)) \<le> float_sub now' ?b"
  then show u: "update now' (skip now (timer a)) =
        Inr ((complete_session (timer a))\<lparr>start_time := Some ?b\<rparr>, True)"
    by (simp add: update_after_skip_running)
  show "run_update now' today (a\<lparr>timer := skip now (timer a)\<rparr>) =
        Inr (on_session_complete today
               (a\<lparr>timer := (complete_session (timer a))\<lparr>start_time := Some ?b\<rparr>\<rparr>))"
    using run_update_completed [of now' "a\<lparr>timer := skip now (timer a)\<rparr>", OF _] u by simp
next
  let ?d = "total_seconds (timer a)"
  let ?b = "float_sub now (round_double (real_of_int ?d))"
  assume g: "state (timer a) = RUNNING \<and> now = of_int m * pow2 k \<and> 0 \<le> m \<and> m < 2 ^ 53 \<and>
    - 1074 \<le> k \<and> k \<le> 0 \<and> 0 \<le> ?d \<and> ?d < 2 ^ 52 \<and> now \<le> now'"
  have n0: "0 \<le> now" using g pow2_pos [of k] by simp
  have "real_of_int ?d \<le> float_sub now' ?b"
  proof (cases "real_of_int ?d \<le> now")
    case True
    then have ex: "?b = now - real_of_int ?d" and d: "\<bar>?d\<bar> < 2 ^ 53"
      using g skip_back_date_exact [of now m k ?d] by blast+
    have "real_of_int ?d \<le> now' - (now - real_of_int ?d)" using g by simp
    then show ?thesis unfolding ex using d by (rule float_sub_ge)
  next
    case False
    then have "now < real_of_int ?d" by simp
    with n0 show ?thesis using g by (intro skip_back_date_early) simp_all
  qed
  then show u: "update now' (skip now (timer a)) =
        Inr ((complete_session (timer a))\<lparr>start_time := Some ?b\<rparr>, True)"
    using g by (simp add: update_after_skip_running)
  show "run_update now' today (a\<lparr>timer := skip now (timer a)\<rparr>) =
        Inr (on_session_complete today
               (a\<lparr>timer := (complete_session (timer a))\<lparr>start_time := Some ?b\<rparr>\<rparr>))"
    using run_update_completed [of now' "a\<lparr>timer := skip now (timer a)\<rparr>", OF _] u by simp
  show "?b = now - real_of_int ?d" if "real_of_int ?d \<le> now"
    using that g skip_back_date_exact [of now m k ?d] by blast
next
  assume "state (timer a) = RUNNING \<and> start_time (timer a) = Some s \<and>
      real_of_int (total_seconds (timer a)) \<le> float_sub now' s"
  then show u: "update now' (timer a) = Inr (complete_session (timer a), True)"
    by (simp add: update_expired)
  show "run_update now' today a =
        Inr (on_session_complete today (a\<lparr>timer := complete_session (timer a)\<rparr>))"
    using u by (rule run_update_completed)
next
  assume n: "state (timer a) \<noteq> RUNNING"
  then show "skip now (timer a) = complete_session (timer a)"
    by (rule update_after_skip_not_running)
  from n show u: "update now' (skip now (timer a)) = Inr (complete_session (timer a), False)"
    by (rule update_after_skip_not_running)
  show "run_update now' today (a\<lparr>timer := skip now (timer a)\<rparr>) =
        Inr (a\<lparr>timer := complete_session (timer a)\<rparr>)"
    using run_update_not_completed [of now' "a\<lparr>timer := skip now (timer a)\<rparr>"] u by simp
next
  assume "\<not> show_help a"
  then show "handle_input dialogs now (CHR ''k'') a = Inr (a\<lparr>timer := skip now (timer a)\<rparr>)"
    by (rule handle_input_k)
qed

text \<open>
  The running session skipped at 2000 and updated an eighth of a second later; skipped
  at 500, before the clock has reached the duration, and updated at 500.1; skipped at
  0.25 and updated at 0.5; the same session expiring at 1600; the initial, stopped
  timer skipped at 500.
\<close>

theorem skip_then_update_witness:
  "update (16001 / 8) (skip 2000 running_timer) =
     Inr ((complete_session running_timer)\<lparr>start_time := Some 500\<rparr>, True) \<and>
   skip 500 running_timer = running_timer\<lparr>start_time := Some (- 1000), remaining_seconds := 0\<rparr> \<and>
   update (5001 / 10) (skip 500 running_timer) =
     Inr ((complete_session running_timer)\<lparr>start_time := Some (- 1000)\<rparr>, True) \<and>
   update (1 / 2) (skip (1 / 4) running_timer) =
     Inr ((complete_session running_timer)\<lparr>start_time := Some (- 5999 / 4)\<rparr>, True) \<and>
   update 1600 running_timer = Inr (complete_session running_timer, True) \<and>
   update (5001 / 10) (skip 500 PomodoroTimer_init) =
     Inr (complete_session PomodoroTimer_init, False) \<and>
   run_update (5001 / 10) today_ex (PomodoroApp_init\<lparr>timer := skip 500 PomodoroTimer_init\<rparr>) =
     Inr (PomodoroApp_init\<lparr>timer := complete_session PomodoroTimer_init\<rparr>) \<and>
   handle_input no_dialogs 500 (CHR ''k'') running_app =
     Inr (running_app\<lparr>timer := skip 500 running_timer\<rparr>)"
proof -
  have t: "timer running_app = running_timer" "\<not> show_help running_app"
    by (simp_all add: running_app_def PomodoroApp_init_def)
  have r0: "state (timer running_app) = RUNNING" "start_time (timer running_app) = Some 100"
    by (simp_all add: t running_timer_facts)
  have i: "state (timer PomodoroApp_init) \<noteq> RUNNING"
    and j: "timer PomodoroApp_init = PomodoroTimer_init"
    by (simp_all add: PomodoroApp_init_def PomodoroTimer_init_def)
  have rd: "round_double 1500 = 1500"
    using round_double_of_int [of 1500] by simp
  have b: "float_sub 500 (round_double 1500) = - 1000"
    using round_double_of_int [of "- 1000"] by (simp add: float_sub_def rd)
  have "round_double (- 5999 / 4) = - 5999 / 4"
    by (rule round_double_grid [where m = "- 5999" and k = "- 2"]) (simp_all add: pow2_def)
  then have q: "float_sub (1 / 4) (round_double 1500) = - 5999 / 4"
    by (simp add: float_sub_def rd)
  have "real_of_int 1500 \<le> float_sub (5001 / 10) (- 1000)" by (rule float_sub_ge) simp_all
  then have e: "real_of_int (total_seconds (timer running_app)) \<le>
      float_sub (5001 / 10)
        (float_sub 500 (round_double (real_of_int (total_seconds (timer running_app)))))"
    by (simp add: t running_timer_facts b)
  have n: "real_of_int (total_seconds (timer running_app)) \<le> float_sub 1600 100"
    unfolding t running_timer_facts by (rule float_sub_ge) simp_all
  have g: "state (timer running_app) = RUNNING \<and> (2000::real) = of_int 2000 * pow2 0 \<and>
      (0::int) \<le> 2000 \<and> (2000::int) < 2 ^ 53 \<and> - 1074 \<le> (0::int) \<and> (0::int) \<le> 0 \<and>
      0 \<le> total_seconds (timer running_app) \<and>
      total_seconds (timer running_app) < 2 ^ 52 \<and> (2000::real) \<le> 16001 / 8"
    by (simp add: t running_timer_facts pow2_def)
  have le: "real_of_int (total_seconds (timer running_app)) \<le> 2000"
    by (simp add: t running_timer_facts)
  have h: "state (timer running_app) = RUNNING \<and> (1 / 4 :: real) = of_int 1 * pow2 (- 2) \<and>
      (0::int) \<le> 1 \<and> (1::int) < 2 ^ 53 \<and> - 1074 \<le> (- 2 :: int) \<and> (- 2 :: int) \<le> 0 \<and>
      0 \<le> total_seconds (timer running_app) \<and>
      total_seconds (timer running_app) < 2 ^ 52 \<and> (1 / 4 :: real) \<le> 1 / 2"
    by (simp add: t running_timer_facts pow2_def)
  note A = skip_then_update [where a = running_app and now = 2000 and now' = "16001 / 8"
      and today = today_ex and s = 100 and dialogs = no_dialogs and m = 2000 and k = 0]
  note B = skip_then_update [where a = running_app and now = 500 and now' = "5001 / 10"
      and today = today_ex and s = 100 and dialogs = no_dialogs and m = 500 and k = 0]
  note C = skip_then_update [where a = running_app and now = 500 and now' = 1600
      and today = today_ex and s = 100 and dialogs = no_dialogs and m = 500 and k = 0]
  note D = skip_then_update [where a = PomodoroApp_init and now = 500 and now' = "5001 / 10"
      and today = today_ex and s = 100 and dialogs = no_dialogs and m = 500 and k = 0]
  note E = skip_then_update [where a = running_app and now = "1 / 4" and now' = "1 / 2"
      and today = today_ex and s = 100 and dialogs = no_dialogs and m = 1 and k = "- 2"]
  note A3 = A [THEN conjunct2, THEN conjunct2, THEN conjunct1, THEN mp, OF g]
  note 1 = A3 [THEN conjunct1]
  note x = A3 [THEN conjunct2, THEN conjunct2, THEN mp, OF le]
  note 2 = B [THEN conjunct1, THEN mp, OF r0(1)]
  note 3 = B [THEN conjunct2, THEN conjunct1, THEN mp, OF conjI [OF r0(1) e], THEN conjunct1]
  note 4 = C [THEN conjunct2, THEN conjunct2, THEN conjunct2, THEN conjunct1, THEN mp,
      OF conjI [OF r0(1) conjI [OF r0(2) n]], THEN conjunct1]
  note D5 = D [THEN conjunct2, THEN conjunct2, THEN conjunct2, THEN conjunct2, THEN conjunct1,
      THEN mp, OF i]
  note 5 = D5 [THEN conjunct2, THEN conjunct1]
  note 6 = D5 [THEN conjunct2, THEN conjunct2]
  note 7 = B [THEN conjunct2, THEN conjunct2, THEN conjunct2, THEN conjunct2, THEN conjunct2,
      THEN mp, OF t(2)]
  note 8 = E [THEN conjunct2, THEN conjunct2, THEN conjunct1, THEN mp, OF h, THEN conjunct1]
  have y: "float_sub 2000 (round_double 1500) = 500"
    using x by (simp add: t running_timer_facts)
  show ?thesis
    using 1 2 3 4 5 6 7 8 by (simp add: t j running_timer_facts b y q)
qed

subsection \<open>The task store\<close>

lemma map_task_id_modify_task:
  "(\<And>t. task_id (f t) = task_id t) \<Longrightarrow> map task_id (modify_task i f ts) = map task_id ts"
  by (induction ts) simp_all

lemma get_task_None_iff: "get_task tm i = None \<longleftrightarrow> i \<notin> task_id ` set (tasks tm)"
  by (auto simp: get_task_def find_None_iff)

lemma ids_complete_task: "map task_id (tasks (complete_task i tm)) = map task_id (tasks tm)"
  by (simp add: complete_task_def map_task_id_modify_task split: option.split)

lemma ids_edit_task: "map task_id (tasks (edit_task i a b c tm)) = map task_id (tasks tm)"
  by (simp add: edit_task_def edit_fields_def map_task_id_modify_task split: option.split)

lemma ids_increment: "map task_id (tasks (increment_task_pomodoro i tm)) = map task_id (tasks tm)"
  by (simp add: increment_task_pomodoro_def map_task_id_modify_task split: option.split)

lemma active_complete_task: "active_task_id (complete_task i tm) = active_task_id tm"
  by (simp add: complete_task_def split: option.split)

lemma active_edit_task: "active_task_id (edit_task i a b c tm) = active_task_id tm"
  by (simp add: edit_task_def split: option.split)

lemma active_increment: "active_task_id (increment_task_pomodoro i tm) = active_task_id tm"
  by (simp add: increment_task_pomodoro_def split: option.split)

lemma store_inv_add: "store_inv tm \<Longrightarrow> store_inv (snd (add_task now_iso ttl prio est tm))"
  by (auto simp: store_inv_def add_task_def Let_def split: option.splits)

lemma store_inv_delete: "store_inv tm \<Longrightarrow> store_inv (delete_task i tm)"
  by (auto simp: store_inv_def delete_task_def Let_def split: option.splits)

lemma store_inv_ids:
  "store_inv tm \<Longrightarrow> map task_id (tasks tm') = map task_id (tasks tm) \<Longrightarrow>
     active_task_id tm' = active_task_id tm \<Longrightarrow> store_inv tm'"
proof -
  assume inv: "store_inv tm" and ids: "map task_id (tasks tm') = map task_id (tasks tm)"
    and act: "active_task_id tm' = active_task_id tm"
  from ids have "set (map task_id (tasks tm')) = set (map task_id (tasks tm))" by simp
  then have "task_id ` set (tasks tm') = task_id ` set (tasks tm)" by simp
  with inv act show ?thesis by (simp add: store_inv_def split: option.splits)
qed

lemma store_inv_set_active:
  "j \<in> task_id ` set (tasks tm) \<Longrightarrow> store_inv (set_active_task (Some j) tm)"
  "store_inv (set_active_task None tm)"
  by (simp_all add: store_inv_def set_active_task_def)

lemma set_get_incomplete: "set (get_incomplete_tasks b tm) \<subseteq> set (tasks tm)"
  by (auto simp: get_incomplete_tasks_def Let_def)

lemma key_in_1_9_int: "key_in_1_9 key \<Longrightarrow> 1 \<le> int_of_key key \<and> int_of_key key \<le> 9"
  by (simp add: key_in_1_9_def int_of_key_def)

lemma handle_input_store_inv:
  assumes "store_inv (task_manager a)" "\<not> is_dialog_key key"
    "handle_input dialogs now key a = Inr a'"
  shows "store_inv (task_manager a')"
proof (cases "\<not> show_help a \<and> key \<noteq> CHR ''q'' \<and> key \<noteq> CHR ''?'' \<and> key \<noteq> CHR ''s'' \<and>
    key \<noteq> CHR ''k'' \<and> isdigit key \<and> key_in_1_9 key \<and>
    int_of_key key - 1 < int (length (get_incomplete_tasks True (task_manager a)))")
  case True
  let ?ts = "get_incomplete_tasks True (task_manager a)"
  from True have idx: "nat (int_of_key key - 1) < length ?ts"
    using key_in_1_9_int [of key] by linarith
  then have "?ts ! nat (int_of_key key - 1) \<in> set (tasks (task_manager a))"
    using set_get_incomplete [of True "task_manager a"] nth_mem by blast
  then have "store_inv (set_active_task (Some (task_id (?ts ! nat (int_of_key key - 1))))
      (task_manager a))"
    by (intro store_inv_set_active) simp
  moreover have "a' = a\<lparr>task_manager := set_active_task
      (Some (task_id (?ts ! nat (int_of_key key - 1)))) (task_manager a)\<rparr>"
    using assms(2,3) True by (simp add: handle_input_def is_dialog_key_def Let_def)
  ultimately show ?thesis by simp
next
  case False
  then have "task_manager a' = task_manager a"
    using assms(2,3)
    by (auto simp: handle_input_def is_dialog_key_def Let_def split: if_splits sum.splits)
  then show ?thesis using assms(1) by simp
qed

lemma example_store_eq:
  "example_store =
     \<lparr>tasks =
        [\<lparr>task_id = 1, title = ''C'', priority = ''Medium'', estimated_pomodoros = 1,
          completed_pomodoros = 0, completed = False, created_at = ''2024-05-01T09:00:00''\<rparr>,
         \<lparr>task_id = 2, title = ''A'', priority = ''High'', estimated_pomodoros = 2,
          completed_pomodoros = 0, completed = False, created_at = ''2024-05-01T09:01:00''\<rparr>,
         \<lparr>task_id = 3, title = ''B'', priority = ''High'', estimated_pomodoros = 1,
          completed_pomodoros = 0, completed = False, created_at = ''2024-05-01T09:02:00''\<rparr>],
      next_id = 4, active_task_id = None\<rparr>"
  by (simp add: example_store_def add_task_def Task_init_def TaskManager_init_def Let_def)

lemma example_store_tasks:
  "example_store = \<lparr>tasks = [task_C, task_A, task_B], next_id = 4, active_task_id = None\<rparr>"
  by (simp add: example_store_eq task_A_def task_B_def task_C_def)

text \<open>
  C3, as stated, at the empty store: \<open>set_active_task\<close> takes the id 99, which no task
  has, and the invariant is lost.
\<close>

theorem set_active_unchecked_counterexample:
  "store_inv TaskManager_init \<and> \<not> store_inv (set_active_task (Some 99) TaskManager_init)"
  by (simp add: store_inv_def set_active_task_def TaskManager_init_def)

text \<open>
  C3, amended. \<open>set_active_task\<close> stores whatever it is given, without a check. The
  invariant is kept by add, complete, delete, edit and increment-pomodoro, and by
  set-active when it is given none or the id of a task of the list; deleting the task
  the reference points at clears the reference, deleting another task leaves it; and
  \<open>handle_input\<close>, for every key that opens no dialog, keeps the invariant (the numeric
  keys are the only callers of \<open>set_active_task\<close>, with the id of a listed task).
\<close>

theorem store_inv_preserved:
  "(store_inv tm \<longrightarrow>
     store_inv (snd (add_task now_iso ttl prio est tm)) \<and>
     store_inv (complete_task i tm) \<and>
     store_inv (delete_task i tm) \<and>
     store_inv (edit_task i new_title new_priority estimated tm) \<and>
     store_inv (increment_task_pomodoro i tm) \<and>
     store_inv (set_active_task None tm) \<and>
     (j \<in> task_id ` set (tasks tm) \<longrightarrow> store_inv (set_active_task (Some j) tm))) \<and>
   active_task_id (set_active_task v tm) = v \<and>
   (active_task_id tm = Some i \<longrightarrow> active_task_id (delete_task i tm) = None) \<and>
   (active_task_id tm \<noteq> Some i \<longrightarrow> active_task_id (delete_task i tm) = active_task_id tm) \<and>
   (store_inv (task_manager a) \<and> \<not> is_dialog_key key \<and>
      handle_input dialogs now key a = Inr a' \<longrightarrow> store_inv (task_manager a'))"
proof (intro conjI impI)
  assume inv: "store_inv tm"
  show "store_inv (snd (add_task now_iso ttl prio est tm))" using inv by (rule store_inv_add)
  show "store_inv (complete_task i tm)"
    using inv ids_complete_task active_complete_task by (rule store_inv_ids)
  show "store_inv (delete_task i tm)" using inv by (rule store_inv_delete)
  show "store_inv (edit_task i new_title new_priority estimated tm)"
    using inv ids_edit_task active_edit_task by (rule store_inv_ids)
  show "store_inv (increment_task_pomodoro i tm)"
    using inv ids_increment active_increment by (rule store_inv_ids)
  show "store_inv (set_active_task None tm)" by (rule store_inv_set_active)
  show "store_inv (set_active_task (Some j) tm)" if "j \<in> task_id ` set (tasks tm)"
    using that by (rule store_inv_set_active)
next
  show "active_task_id (set_active_task v tm) = v" by (simp add: set_active_task_def)
next
  assume "active_task_id tm = Some i"
  then show "active_task_id (delete_task i tm) = None" by (simp add: delete_task_def Let_def)
next
  assume "active_task_id tm \<noteq> Some i"
  then show "active_task_id (delete_task i tm) = active_task_id tm"
    by (simp add: delete_task_def Let_def)
next
  assume "store_inv (task_manager a) \<and> \<not> is_dialog_key key \<and>
      handle_input dialogs now key a = Inr a'"
  then show "store_inv (task_manager a')" using handle_input_store_inv by blast
qed

text \<open>
  In the store of three tasks: task 2 made active, then deleted (the reference is
  cleared), or task 3 deleted (the reference stays), or task 2 completed.
\<close>

theorem store_inv_preserved_witness:
  "store_inv (set_active_task (Some 2) example_store) \<and>
   store_inv (delete_task 2 (set_active_task (Some 2) example_store)) \<and>
   active_task_id (delete_task 2 (set_active_task (Some 2) example_store)) = None \<and>
   active_task_id (delete_task 3 (set_active_task (Some 2) example_store)) = Some 2 \<and>
   store_inv (complete_task 2 (set_active_task (Some 2) example_store))"
proof -
  have m: "(2::int) \<in> task_id ` set (tasks example_store)"
    and i: "store_inv example_store"
    by (simp_all add: example_store_eq store_inv_def)
  have a: "active_task_id (set_active_task (Some 2) example_store) = Some 2"
    "active_task_id (set_active_task (Some 2) example_store) \<noteq> Some 3"
    by (simp_all add: set_active_task_def)
  note P = store_inv_preserved [where tm = example_store and j = 2 and i = 2 and v = None
      and now_iso = "[]" and ttl = "[]" and prio = "[]" and est = 1 and new_title = None
      and new_priority = None and estimated = None and a = running_app
      and a' = running_app and key = "CHR ''x''" and dialogs = no_dialogs and now = 0]
  note Q = store_inv_preserved [where tm = "set_active_task (Some 2) example_store" and j = 2
      and i = 2 and v = None
      and now_iso = "[]" and ttl = "[]" and prio = "[]" and est = 1 and new_title = None
      and new_priority = None and estimated = None and a = running_app
      and a' = running_app and key = "CHR ''x''" and dialogs = no_dialogs and now = 0]
  note R = store_inv_preserved [where tm = "set_active_task (Some 2) example_store" and j = 2
      and i = 3 and v = None
      and now_iso = "[]" and ttl = "[]" and prio = "[]" and est = 1 and new_title = None
      and new_priority = None and estimated = None and a = running_app
      and a' = running_app and key = "CHR ''x''" and dialogs = no_dialogs and now = 0]
  have s: "store_inv (set_active_task (Some 2) example_store)"
    using P i m by blast
  have 1: "store_inv (delete_task 2 (set_active_task (Some 2) example_store))"
    and 2: "store_inv (complete_task 2 (set_active_task (Some 2) example_store))"
    and 3: "active_task_id (delete_task 2 (set_active_task (Some 2) example_store)) = None"
    using Q s a(1) by blast+
  have 4: "active_task_id (delete_task 3 (set_active_task (Some 2) example_store)) = Some 2"
    using R a by simp
  show ?thesis using s 1 2 3 4 by blast
qed

subsection \<open>Task ids\<close>

lemma next_id_add_task: "next_id (snd (add_task now_iso ttl prio est tm)) = next_id tm + 1"
  by (simp add: add_task_def Let_def)

lemma task_id_add_task: "task_id (fst (add_task now_iso ttl prio est tm)) = next_id tm"
  by (simp add: add_task_def Let_def Task_init_def)

lemma tasks_add_task:
  "tasks (snd (add_task now_iso ttl prio est tm)) = tasks tm @ [fst (add_task now_iso ttl prio est tm)]"
  by (simp add: add_task_def Let_def)

lemma next_id_delete_task: "next_id (delete_task i tm) = next_id tm"
  by (simp add: delete_task_def Let_def)

lemma tasks_delete_task: "tasks (delete_task i tm) = filter (\<lambda>t. task_id t \<noteq> i) (tasks tm)"
  by (simp add: delete_task_def Let_def)

lemma apply_store_ops_ids:
  "fst (apply_store_ops ops tm) = map (\<lambda>k. next_id tm + int k) [0..<count_adds ops] \<and>
   next_id (snd (apply_store_ops ops tm)) = next_id tm + int (count_adds ops)"
proof (induction ops tm rule: apply_store_ops.induct)
  case (1 tm)
  show ?case by simp
next
  case (2 now_iso ttl prio est ops tm)
  obtain task tm1 where a: "add_task now_iso ttl prio est tm = (task, tm1)" by fastforce
  obtain ids tm2 where b: "apply_store_ops ops tm1 = (ids, tm2)" by fastforce
  have n: "next_id tm1 = next_id tm + 1" and i: "task_id task = next_id tm"
    using next_id_add_task [of now_iso ttl prio est tm]
      task_id_add_task [of now_iso ttl prio est tm] a by simp_all
  from "2.IH" [OF a [symmetric]] b
  have ih: "ids = map (\<lambda>k. next_id tm1 + int k) [0..<count_adds ops]"
    "next_id tm2 = next_id tm1 + int (count_adds ops)" by simp_all
  show ?case
    using a b ih n i by (simp add: map_upt_Suc del: upt_Suc) 
next
  case (3 i ops tm)
  then show ?case by (simp add: next_id_delete_task)
qed

lemma apply_store_ops_fresh:
  "\<forall>t\<in>set (tasks tm). task_id t < next_id tm \<Longrightarrow> distinct (map task_id (tasks tm)) \<Longrightarrow>
     (\<forall>t\<in>set (tasks (snd (apply_store_ops ops tm))).
        task_id t < next_id (snd (apply_store_ops ops tm))) \<and>
     distinct (map task_id (tasks (snd (apply_store_ops ops tm))))"
proof (induction ops tm rule: apply_store_ops.induct)
  case (1 tm)
  then show ?case by simp
next
  case (2 now_iso ttl prio est ops tm)
  obtain task tm1 where a: "add_task now_iso ttl prio est tm = (task, tm1)" by fastforce
  have n: "next_id tm1 = next_id tm + 1" and i: "task_id task = next_id tm"
    and ts: "tasks tm1 = tasks tm @ [task]"
    using next_id_add_task [of now_iso ttl prio est tm]
      task_id_add_task [of now_iso ttl prio est tm]
      tasks_add_task [of now_iso ttl prio est tm] a by simp_all
  have 1: "\<forall>t\<in>set (tasks tm1). task_id t < next_id tm1"
    using "2.prems"(1) n i ts by auto
  have 2: "distinct (map task_id (tasks tm1))"
    using "2.prems" i ts by auto
  from "2.IH" [OF a [symmetric] 1 2] show ?case
    using a by (cases "apply_store_ops ops tm1") simp
next
  case (3 i ops tm)
  have 1: "\<forall>t\<in>set (tasks (delete_task i tm)). task_id t < next_id (delete_task i tm)"
    using "3.prems"(1) by (simp add: next_id_delete_task tasks_delete_task)
  have 2: "distinct (map task_id (tasks (delete_task i tm)))"
    using "3.prems"(2) by (simp add: tasks_delete_task distinct_map_filter)
  from "3.IH" [OF 1 2] show ?case by simp
qed

text \<open>
  C7. Every add assigns the current \<open>next_id\<close> and increments it, and delete leaves the
  counter alone. So for every run of adds and deletes the ids assigned are
  \<open>next_id\<close>, \<open>next_id + 1\<close>, ... in order: strictly increasing, whatever was deleted
  in between. When the ids of the store are distinct and below \<open>next_id\<close> at the start,
  no assigned id is the id of a task that was in the store, and the ids stay distinct.
\<close>

theorem add_ids_increasing:
  "task_id (fst (add_task now_iso ttl prio est tm)) = next_id tm \<and>
   next_id (snd (add_task now_iso ttl prio est tm)) = next_id tm + 1 \<and>
   next_id (delete_task i tm) = next_id tm \<and>
   fst (apply_store_ops ops tm) = map (\<lambda>k. next_id tm + int k) [0..<count_adds ops] \<and>
   next_id (snd (apply_store_ops ops tm)) = next_id tm + int (count_adds ops) \<and>
   sorted_wrt (<) (fst (apply_store_ops ops tm)) \<and>
   ((\<forall>t\<in>set (tasks tm). task_id t < next_id tm) \<and> distinct (map task_id (tasks tm)) \<longrightarrow>
      (\<forall>j\<in>set (fst (apply_store_ops ops tm)). j \<notin> task_id ` set (tasks tm)) \<and>
      distinct (map task_id (tasks (snd (apply_store_ops ops tm)))))"
proof (intro conjI impI)
  show "task_id (fst (add_task now_iso ttl prio est tm)) = next_id tm" by (rule task_id_add_task)
  show "next_id (snd (add_task now_iso ttl prio est tm)) = next_id tm + 1"
    by (rule next_id_add_task)
  show "next_id (delete_task i tm) = next_id tm" by (rule next_id_delete_task)
  show ids: "fst (apply_store_ops ops tm) = map (\<lambda>k. next_id tm + int k) [0..<count_adds ops]"
    using apply_store_ops_ids by blast
  show "next_id (snd (apply_store_ops ops tm)) = next_id tm + int (count_adds ops)"
    using apply_store_ops_ids by blast
  show "sorted_wrt (<) (fst (apply_store_ops ops tm))"
    unfolding ids by (simp add: sorted_wrt_map sorted_wrt_upt)
next
  assume h: "(\<forall>t\<in>set (tasks tm). task_id t < next_id tm) \<and> distinct (map task_id (tasks tm))"
  have "fst (apply_store_ops ops tm) = map (\<lambda>k. next_id tm + int k) [0..<count_adds ops]"
    using apply_store_ops_ids by blast
  then have "\<forall>j\<in>set (fst (apply_store_ops ops tm)). next_id tm \<le> j" by auto
  with h show "\<forall>j\<in>set (fst (apply_store_ops ops tm)). j \<notin> task_id ` set (tasks tm)"
    by fastforce
  from h show "distinct (map task_id (tasks (snd (apply_store_ops ops tm))))"
    using apply_store_ops_fresh by blast
qed

text \<open>
  From the new store: three adds get 1, 2, 3; after deleting task 2 the fourth add gets 4,
  not 2, and the store holds the ids 1, 3, 4. From the store of three tasks: after
  deleting task 2 the next add gets 4.
\<close>

theorem add_ids_increasing_witness:
  "fst (apply_store_ops scenario_ops TaskManager_init) = [1, 2, 3, 4] \<and>
   map task_id (tasks (snd (apply_store_ops scenario_ops TaskManager_init))) = [1, 3, 4] \<and>
   map task_id (tasks example_store) = [1, 2, 3] \<and> next_id example_store = 4 \<and>
   fst (apply_store_ops [Delete 2, Add ''2024-05-01T09:03:00'' ''D'' ''Low'' 1] example_store) = [4] \<and>
   (4::int) \<notin> task_id ` set (tasks example_store)"
proof -
  have c: "count_adds scenario_ops = 4" by (simp add: scenario_ops_def)
  have u: "[0..<4] = [0, 1, 2, 3]" by (simp add: upt_rec)
  have n: "next_id TaskManager_init = 1" by (simp add: TaskManager_init_def)
  have 1: "fst (apply_store_ops scenario_ops TaskManager_init) = [1, 2, 3, 4]"
    using add_ids_increasing [where ops = scenario_ops and tm = TaskManager_init
        and now_iso = "[]" and ttl = "[]" and prio = "[]" and est = 1 and i = 0]
    by (simp add: c u n)
  have 2: "map task_id (tasks (snd (apply_store_ops scenario_ops TaskManager_init))) = [1, 3, 4]"
    by (simp add: scenario_ops_def add_task_def delete_task_def Task_init_def
        TaskManager_init_def Let_def)
  have h: "(\<forall>t\<in>set (tasks example_store). task_id t < next_id example_store) \<and>
      distinct (map task_id (tasks example_store))"
    by (simp add: example_store_eq)
  note E = add_ids_increasing [where tm = example_store
      and ops = "[Delete 2, Add ''2024-05-01T09:03:00'' ''D'' ''Low'' 1]"
      and now_iso = "[]" and ttl = "[]" and prio = "[]" and est = 1 and i = 0]
  have 3: "fst (apply_store_ops [Delete 2, Add ''2024-05-01T09:03:00'' ''D'' ''Low'' 1]
      example_store) = [4]"
    using E by (simp add: example_store_eq)
  have 4: "(4::int) \<notin> task_id ` set (tasks example_store)"
    using E h 3 by simp
  have 5: "map task_id (tasks example_store) = [1, 2, 3]" "next_id example_store = 4"
    by (simp_all add: example_store_eq)
  show ?thesis using 1 2 5 3 4 by (intro conjI)
qed

subsection \<open>Operations on an id that is not in the store\<close>

text \<open>
  C10. When no task of the list has the id, \<open>get_task\<close> returns \<open>None\<close>, and
  \<open>complete_task\<close>, \<open>edit_task\<close> and \<open>increment_task_pomodoro\<close> return the task manager
  as it was: the same list, \<open>next_id\<close> and active-task reference. None of them has an
  error result.
\<close>

theorem missing_id_no_change:
  "i \<notin> task_id ` set (tasks tm) \<longrightarrow>
     get_task tm i = None \<and> complete_task i tm = tm \<and>
     edit_task i new_title new_priority estimated tm = tm \<and>
     increment_task_pomodoro i tm = tm"
  by (simp add: get_task_None_iff [symmetric] complete_task_def edit_task_def
      increment_task_pomodoro_def)

text \<open>No task of the store of three tasks has the id 7.\<close>

theorem missing_id_no_change_witness:
  "get_task example_store 7 = None \<and> complete_task 7 example_store = example_store \<and>
   edit_task 7 (Some ''X'') None (Some 3) example_store = example_store \<and>
   increment_task_pomodoro 7 example_store = example_store"
proof -
  have "(7::int) \<notin> task_id ` set (tasks example_store)" by (simp add: example_store_eq)
  then show ?thesis
    using missing_id_no_change [of 7 example_store "Some ''X''" None "Some 3"] by blast
qed

subsection \<open>Statistics\<close>

lemma record_pomodoro_today:
  "record_pomodoro today ttl s today =
     Some \<lparr>total_pomodoros = total_pomodoros (get_today_stats today s) + 1,
           day_tasks = (day_tasks (get_today_stats today s))
             (ttl \<mapsto> title_count (get_today_stats today s) ttl + 1)\<rparr>"
  by (auto simp: record_pomodoro_def get_today_stats_def title_count_def zero_day_def Let_def
      domIff split: option.splits)

lemma record_pomodoro_other: "d \<noteq> today \<Longrightarrow> record_pomodoro today ttl s d = s d"
  by (simp add: record_pomodoro_def Let_def)

text \<open>
  C8. \<open>record_pomodoro\<close> adds 1 to the total of today and to the counter of the title
  today (an absent entry or counter starts at 0), leaves the other titles of today and
  the entry of every other date as they were; \<open>get_today_stats\<close> returns the entry of
  today, or the zero entry when there is none; from a log without an entry for today,
  two records for a title give the count 2.
\<close>

theorem record_pomodoro_counts:
  "total_pomodoros (get_today_stats today (record_pomodoro today ttl s)) =
     total_pomodoros (get_today_stats today s) + 1 \<and>
   day_tasks (get_today_stats today (record_pomodoro today ttl s)) ttl =
     Some (title_count (get_today_stats today s) ttl + 1) \<and>
   (\<forall>other. other \<noteq> ttl \<longrightarrow>
      day_tasks (get_today_stats today (record_pomodoro today ttl s)) other =
      day_tasks (get_today_stats today s) other) \<and>
   (\<forall>d. d \<noteq> today \<longrightarrow> record_pomodoro today ttl s d = s d) \<and>
   (s today = None \<longrightarrow>
      get_today_stats today s = \<lparr>total_pomodoros = 0, day_tasks = Map.empty\<rparr> \<and>
      title_count (get_today_stats today
        (record_pomodoro today ttl (record_pomodoro today ttl s))) ttl = 2) \<and>
   (\<forall>e. s today = Some e \<longrightarrow> get_today_stats today s = e)"
proof (intro conjI allI impI)
  show "total_pomodoros (get_today_stats today (record_pomodoro today ttl s)) =
     total_pomodoros (get_today_stats today s) + 1"
    by (simp add: get_today_stats_def [of today "record_pomodoro today ttl s"] record_pomodoro_today)
  show "day_tasks (get_today_stats today (record_pomodoro today ttl s)) ttl =
     Some (title_count (get_today_stats today s) ttl + 1)"
    by (simp add: get_today_stats_def [of today "record_pomodoro today ttl s"] record_pomodoro_today)
  show "day_tasks (get_today_stats today (record_pomodoro today ttl s)) other =
      day_tasks (get_today_stats today s) other" if "other \<noteq> ttl" for other
    using that
    by (simp add: get_today_stats_def [of today "record_pomodoro today ttl s"] record_pomodoro_today)
  show "record_pomodoro today ttl s d = s d" if "d \<noteq> today" for d
    using that by (rule record_pomodoro_other)
  show "get_today_stats today s = \<lparr>total_pomodoros = 0, day_tasks = Map.empty\<rparr>"
    if "s today = None"
    using that by (simp add: get_today_stats_def zero_day_def)
  show "title_count (get_today_stats today
        (record_pomodoro today ttl (record_pomodoro today ttl s))) ttl = 2"
    if "s today = None"
  proof -
    have 0: "title_count (get_today_stats today s) ttl = 0"
      using that by (simp add: get_today_stats_def zero_day_def title_count_def)
    have 1: "title_count (get_today_stats today (record_pomodoro today ttl s)) ttl = 1"
      using 0
      by (simp add: get_today_stats_def [of today "record_pomodoro today ttl s"]
          record_pomodoro_today title_count_def)
    show ?thesis
      using 1
      by (simp add: get_today_stats_def
            [of today "record_pomodoro today ttl (record_pomodoro today ttl s)"]
          record_pomodoro_today title_count_def)
  qed
  show "get_today_stats today s = e" if "s today = Some e" for e
    using that by (simp add: get_today_stats_def)
qed

text \<open>
  One pomodoro for "Write report" on 2024-04-30, then two on 2024-05-01: the count of
  today is 2 and the entry of 2024-04-30 is the one from before.
\<close>

theorem record_pomodoro_counts_witness:
  "title_count (get_today_stats today_ex
      (record_pomodoro today_ex report_ex (record_pomodoro today_ex report_ex stats_prior)))
      report_ex = 2 \<and>
   record_pomodoro today_ex report_ex (record_pomodoro today_ex report_ex stats_prior) prior_day_ex =
     stats_prior prior_day_ex \<and>
   total_pomodoros (get_today_stats today_ex (record_pomodoro today_ex report_ex stats_prior)) = 1"
proof -
  let ?s1 = "record_pomodoro today_ex report_ex stats_prior"
  note A = record_pomodoro_counts [of today_ex report_ex stats_prior]
  note B = record_pomodoro_counts [of today_ex report_ex ?s1]
  have d: "prior_day_ex \<noteq> today_ex" by (simp add: prior_day_ex_def today_ex_def)
  have n: "stats_prior today_ex = None"
    using d by (simp add: stats_prior_def record_pomodoro_def Let_def)
  from A have A5: "stats_prior today_ex = None \<longrightarrow>
      get_today_stats today_ex stats_prior = \<lparr>total_pomodoros = 0, day_tasks = Map.empty\<rparr> \<and>
      title_count (get_today_stats today_ex (record_pomodoro today_ex report_ex ?s1)) report_ex = 2"
    by (elim conjE)
  from A have A4: "\<forall>d. d \<noteq> today_ex \<longrightarrow> ?s1 d = stats_prior d" by (elim conjE)
  from A have A1: "total_pomodoros (get_today_stats today_ex ?s1) =
      total_pomodoros (get_today_stats today_ex stats_prior) + 1" by (elim conjE)
  from B have B4: "\<forall>d. d \<noteq> today_ex \<longrightarrow> record_pomodoro today_ex report_ex ?s1 d = ?s1 d"
    by (elim conjE)
  have 1: "title_count (get_today_stats today_ex
      (record_pomodoro today_ex report_ex ?s1)) report_ex = 2"
    using A5 n by simp
  have 2: "record_pomodoro today_ex report_ex ?s1 prior_day_ex = stats_prior prior_day_ex"
    using A4 B4 d by simp
  have 3: "total_pomodoros (get_today_stats today_ex ?s1) = 1"
    using A1 A5 n by simp
  show ?thesis using 1 2 3 by (intro conjI)
qed

subsection \<open>Numeric keys\<close>

lemma digit_key:
  assumes "key \<in> set ''123456789''"
  shows "isdigit key" "key_in_1_9 key" "1 \<le> int_of_key key" "int_of_key key \<le> 9"
    "key \<noteq> CHR ''q''" "key \<noteq> CHR ''?''" "key \<noteq> CHR ''s''" "key \<noteq> CHR ''k''"
    "key \<noteq> CHR ''a''" "key \<noteq> CHR ''e''" "key \<noteq> CHR ''c''" "key \<noteq> CHR ''d''"
  using assms by (auto simp: isdigit_def key_in_1_9_def int_of_key_def)

lemma handle_input_digit:
  assumes "\<not> show_help a" "key \<in> set ''123456789''"
  shows "handle_input dialogs now key a =
    (if int_of_key key - 1 < int (length (get_incomplete_tasks True (task_manager a)))
     then Inr (a\<lparr>task_manager := set_active_task
       (Some (task_id (get_incomplete_tasks True (task_manager a) ! nat (int_of_key key - 1))))
       (task_manager a)\<rparr>)
     else Inr a)"
  using assms(1) digit_key [OF assms(2)] by (simp add: handle_input_def Let_def)

lemma enumerate_from_1_nth:
  "k < length xs \<Longrightarrow> zip [1..<Suc (length xs)] xs ! k = (Suc k, xs ! k)"
  by (simp del: upt_Suc)

lemma render_tasks_rows_nth:
  assumes "1 \<le> n" "n \<le> 9" "n \<le> length (get_incomplete_tasks True tm)"
  shows "render_tasks_rows tm ! (n - 1) = (n, get_incomplete_tasks True tm ! (n - 1))"
proof -
  let ?ts = "get_incomplete_tasks True tm"
  have "n - 1 < min (length ?ts) 10" using assms by linarith
  then have l: "n - 1 < length (take 10 ?ts)" by simp
  have t: "take 10 ?ts ! (n - 1) = ?ts ! (n - 1)" using assms by simp
  have s: "Suc (n - 1) = n" using assms(1) by simp
  show ?thesis
    unfolding render_tasks_rows_def Let_def enumerate_from_1_nth [OF l] t s ..
qed

lemma incomplete_sorted:
  "sorted (map (\<lambda>t. priority_order (priority t)) (get_incomplete_tasks True tm))"
  by (simp add: get_incomplete_tasks_def Let_def)

lemma incomplete_mset:
  "mset (get_incomplete_tasks True tm) = mset (filter (\<lambda>t. \<not> completed t) (tasks tm))"
  by (simp add: get_incomplete_tasks_def Let_def)

lemma incomplete_stable:
  "filter (\<lambda>t. priority_order (priority t) = k) (get_incomplete_tasks True tm) =
   filter (\<lambda>t. priority_order (priority t) = k) (filter (\<lambda>t. \<not> completed t) (tasks tm))"
  by (simp add: get_incomplete_tasks_def Let_def sort_key_stable)

lemma example_incomplete: "get_incomplete_tasks True example_store = [task_A, task_B, task_C]"
  by (simp add: example_store_tasks get_incomplete_tasks_def task_A_def task_B_def task_C_def
      priority_order_def)

text \<open>
  C9, as stated, with the help panel shown: the key 3 only closes the panel, and no task
  becomes active although the list has three entries.
\<close>

theorem help_panel_counterexample:
  "handle_input no_dialogs 0 (CHR ''3'') (example_app\<lparr>show_help := True\<rparr>) = Inr example_app \<and>
   active_task_id (task_manager example_app) = None \<and>
   get_incomplete_tasks True (task_manager example_app) = [task_A, task_B, task_C]"
  by (simp add: handle_input_def example_app_def PomodoroApp_init_def example_incomplete)
    (simp add: example_store_tasks)

lemma find_distinct_key:
  "distinct (map f xs) \<Longrightarrow> x \<in> set xs \<Longrightarrow> find (\<lambda>t. f t = f x) xs = Some x"
  by (induction xs) auto

lemma get_active_task_selected:
  assumes "distinct (map task_id (tasks tm))" "0 \<notin> task_id ` set (tasks tm)"
    "x \<in> set (tasks tm)"
  shows "get_active_task (tm\<lparr>active_task_id := Some (task_id x)\<rparr>) = Some x"
proof -
  have "task_id x \<noteq> 0" using assms(2,3) by force
  then show ?thesis
    using find_distinct_key [OF assms(1,3)] by (simp add: get_active_task_def get_task_def)
qed

lemma handle_input_help:
  "show_help a \<Longrightarrow> handle_input dialogs now key a = Inr (a\<lparr>show_help := False\<rparr>)"
  by (simp add: handle_input_def)

text \<open>
  C9, amended. When the help panel is not shown, the key N (1 to 9) makes the Nth task
  of \<open>get_incomplete_tasks(sort_by_priority=True)\<close> the active task: it stores the id of
  that task, which is row N of the table of \<open>render_tasks\<close>, as the active-task
  reference, and \<open>get_active_task\<close> then returns that task (the ids of the store being
  distinct and not 0, as the data model has them). A key beyond the length of the list
  changes nothing. That list is the incomplete tasks sorted by the rank of the priority
  (High before Medium before Low), tasks of equal rank in the order of the task list.
  While the help panel is shown, every key, a numeric key too, only closes the panel.
\<close>

theorem numeric_key_selects:
  "(\<not> show_help a \<and> key \<in> set ''123456789'' \<longrightarrow>
      (nat (int_of_key key) \<le> length (get_incomplete_tasks True (task_manager a)) \<longrightarrow>
         handle_input dialogs now key a =
           Inr (a\<lparr>task_manager := (task_manager a)\<lparr>active_task_id :=
                  Some (task_id (get_incomplete_tasks True (task_manager a) !
                                   (nat (int_of_key key) - 1)))\<rparr>\<rparr>) \<and>
         render_tasks_rows (task_manager a) ! (nat (int_of_key key) - 1) =
           (nat (int_of_key key),
            get_incomplete_tasks True (task_manager a) ! (nat (int_of_key key) - 1)) \<and>
         (distinct (map task_id (tasks (task_manager a))) \<and>
          0 \<notin> task_id ` set (tasks (task_manager a)) \<longrightarrow>
            get_active_task ((task_manager a)\<lparr>active_task_id :=
                  Some (task_id (get_incomplete_tasks True (task_manager a) !
                                   (nat (int_of_key key) - 1)))\<rparr>) =
              Some (get_incomplete_tasks True (task_manager a) ! (nat (int_of_key key) - 1)))) \<and>
      (length (get_incomplete_tasks True (task_manager a)) < nat (int_of_key key) \<longrightarrow>
         handle_input dialogs now key a = Inr a)) \<and>
   (show_help a \<longrightarrow> handle_input dialogs now key a = Inr (a\<lparr>show_help := False\<rparr>)) \<and>
   sorted (map (\<lambda>t. priority_order (priority t)) (get_incomplete_tasks True tm)) \<and>
   mset (get_incomplete_tasks True tm) = mset (filter (\<lambda>t. \<not> completed t) (tasks tm)) \<and>
   (\<forall>k. filter (\<lambda>t. priority_order (priority t) = k) (get_incomplete_tasks True tm) =
        filter (\<lambda>t. priority_order (priority t) = k) (filter (\<lambda>t. \<not> completed t) (tasks tm))) \<and>
   priority_order ''High'' < priority_order ''Medium'' \<and>
   priority_order ''Medium'' < priority_order ''Low''"
proof (intro conjI impI allI)
  assume h: "\<not> show_help a \<and> key \<in> set ''123456789''"
  let ?ts = "get_incomplete_tasks True (task_manager a)"
  let ?n = "nat (int_of_key key)"
  from h have k: "1 \<le> int_of_key key" "int_of_key key \<le> 9" by (simp_all add: digit_key)
  have idx: "nat (int_of_key key - 1) = ?n - 1" using k by simp
  show "handle_input dialogs now key a =
           Inr (a\<lparr>task_manager := (task_manager a)\<lparr>active_task_id :=
                  Some (task_id (?ts ! (?n - 1)))\<rparr>\<rparr>)"
    if "?n \<le> length ?ts"
  proof -
    have "int_of_key key - 1 < int (length ?ts)" using that k by linarith
    then show ?thesis using h by (simp add: handle_input_digit idx set_active_task_def)
  qed
  show "render_tasks_rows (task_manager a) ! (?n - 1) = (?n, ?ts ! (?n - 1))"
    if "?n \<le> length ?ts"
    using that k by (intro render_tasks_rows_nth) linarith+
  show "get_active_task ((task_manager a)\<lparr>active_task_id := Some (task_id (?ts ! (?n - 1)))\<rparr>) =
      Some (?ts ! (?n - 1))"
    if l: "?n \<le> length ?ts"
      and d: "distinct (map task_id (tasks (task_manager a))) \<and>
          0 \<notin> task_id ` set (tasks (task_manager a))"
  proof -
    have "?n - 1 < length ?ts" using l k by linarith
    then have "?ts ! (?n - 1) \<in> set ?ts" by (rule nth_mem)
    then have "?ts ! (?n - 1) \<in> set (tasks (task_manager a))"
      using set_get_incomplete [of True "task_manager a"] by blast
    then show ?thesis using d by (intro get_active_task_selected) simp_all
  qed
  show "handle_input dialogs now key a = Inr a" if "length ?ts < ?n"
  proof -
    have "\<not> int_of_key key - 1 < int (length ?ts)" using that k by linarith
    then show ?thesis using h by (simp add: handle_input_digit)
  qed
next
  assume "show_help a"
  then show "handle_input dialogs now key a = Inr (a\<lparr>show_help := False\<rparr>)"
    by (rule handle_input_help)
next
  show "sorted (map (\<lambda>t. priority_order (priority t)) (get_incomplete_tasks True tm))"
    by (rule incomplete_sorted)
  show "mset (get_incomplete_tasks True tm) = mset (filter (\<lambda>t. \<not> completed t) (tasks tm))"
    by (rule incomplete_mset)
  show "filter (\<lambda>t. priority_order (priority t) = k) (get_incomplete_tasks True tm) =
        filter (\<lambda>t. priority_order (priority t) = k) (filter (\<lambda>t. \<not> completed t) (tasks tm))" for k
    by (rule incomplete_stable)
  show "priority_order ''High'' < priority_order ''Medium''"
    and "priority_order ''Medium'' < priority_order ''Low''"
    by (simp_all add: priority_order_def)
qed

text \<open>
  The store of three tasks shows A, B, C; the key 3 makes C the active task, the key 4
  changes nothing, and with the help panel shown the key 3 only closes the panel.
\<close>

theorem numeric_key_selects_witness:
  "get_incomplete_tasks True (task_manager example_app) = [task_A, task_B, task_C] \<and>
   handle_input no_dialogs 0 (CHR ''3'') example_app =
     Inr (example_app\<lparr>task_manager := example_store\<lparr>active_task_id := Some (task_id task_C)\<rparr>\<rparr>) \<and>
   get_active_task (example_store\<lparr>active_task_id := Some (task_id task_C)\<rparr>) = Some task_C \<and>
   render_tasks_rows (task_manager example_app) ! 2 = (3, task_C) \<and>
   handle_input no_dialogs 0 (CHR ''4'') example_app = Inr example_app \<and>
   handle_input no_dialogs 0 (CHR ''3'') (example_app\<lparr>show_help := True\<rparr>) = Inr example_app"
proof -
  have tm: "task_manager example_app = example_store" and h: "\<not> show_help example_app"
    by (simp_all add: example_app_def PomodoroApp_init_def)
  have inc: "get_incomplete_tasks True (task_manager example_app) = [task_A, task_B, task_C]"
    by (simp add: tm example_incomplete)
  have k3: "CHR ''3'' \<in> set ''123456789''" "nat (int_of_key (CHR ''3'')) = 3"
    and k4: "CHR ''4'' \<in> set ''123456789''" "nat (int_of_key (CHR ''4'')) = 4"
    by (simp_all add: int_of_key_def)
  have ids: "distinct (map task_id (tasks (task_manager example_app))) \<and>
      0 \<notin> task_id ` set (tasks (task_manager example_app))"
    by (simp add: tm example_store_tasks task_A_def task_B_def task_C_def)
  note A = numeric_key_selects [where a = example_app and key = "CHR ''3''"
      and dialogs = no_dialogs and now = 0 and tm = example_store]
  note B = numeric_key_selects [where a = example_app and key = "CHR ''4''"
      and dialogs = no_dialogs and now = 0 and tm = example_store]
  note C = numeric_key_selects [where a = "example_app\<lparr>show_help := True\<rparr>"
      and key = "CHR ''3''" and dialogs = no_dialogs and now = 0 and tm = example_store]
  have 1: "handle_input no_dialogs 0 (CHR ''3'') example_app =
     Inr (example_app\<lparr>task_manager := example_store\<lparr>active_task_id := Some (task_id task_C)\<rparr>\<rparr>)"
    and 2: "render_tasks_rows (task_manager example_app) ! 2 = (3, task_C)"
    and 4: "get_active_task (example_store\<lparr>active_task_id := Some (task_id task_C)\<rparr>) = Some task_C"
    using A h k3 ids by (simp_all add: inc) (simp_all add: tm)
  have 3: "handle_input no_dialogs 0 (CHR ''4'') example_app = Inr example_app"
    using B h k4 by (simp add: inc)
  have 5: "handle_input no_dialogs 0 (CHR ''3'') (example_app\<lparr>show_help := True\<rparr>) =
      Inr example_app"
    using C h by (simp add: example_app_def PomodoroApp_init_def)
  show ?thesis using inc 1 2 3 4 5 by (intro conjI)
qed

subsection \<open>The completion handler\<close>

text \<open>
  C1. The loop calls \<open>on_session_complete\<close> after \<open>update()\<close> has made the transition, so
  the handler reads the type of the next session. With task A active: a work session
  that expires leaves the statistics and the task as they were, and a short break that
  expires records a pomodoro for A.
\<close>

theorem work_completion_not_recorded:
  "session_type (timer work_app) = WORK \<and>
   get_active_task (task_manager work_app) = Some task_A \<and>
   run_update 1600 today_ex work_app = Inr (work_app\<lparr>timer := complete_session running_timer\<rparr>) \<and>
   stats work_app today_ex = None \<and>
   session_type break_timer = SHORT_BREAK \<and>
   run_update 400 today_ex (work_app\<lparr>timer := break_timer\<rparr>) =
     Inr (work_app\<lparr>timer := complete_session break_timer,
           task_manager := increment_task_pomodoro 2 (task_manager work_app),
           stats := record_pomodoro today_ex ''A'' Map.empty\<rparr>) \<and>
   total_pomodoros (get_today_stats today_ex (record_pomodoro today_ex ''A'' Map.empty)) = 1 \<and>
   map completed_pomodoros (tasks (increment_task_pomodoro 2 (task_manager work_app))) = [0, 1, 0]"
proof -
  have w: "timer work_app = running_timer" "stats work_app = Map.empty"
    "task_manager work_app = example_store\<lparr>active_task_id := Some 2\<rparr>"
    by (simp_all add: work_app_def set_active_task_def)
  have rt: "state running_timer = RUNNING" "start_time running_timer = Some 100"
    "total_seconds running_timer = 1500" "session_type running_timer = WORK"
    by (simp_all add: running_timer_def PomodoroTimer_init_def settings)
  have cs: "session_type (complete_session running_timer) = SHORT_BREAK"
    "total_seconds (complete_session running_timer) = 300"
    by (simp_all add: complete_session_def start_break_def Let_def running_timer_def
        PomodoroTimer_init_def settings)
  have bt: "state break_timer = RUNNING" "start_time break_timer = Some 100"
    "total_seconds break_timer = 300" "session_type break_timer = SHORT_BREAK"
    by (simp_all add: break_timer_def cs)
  have act: "get_active_task (task_manager work_app) = Some task_A"
    by (simp add: w get_active_task_def get_task_def example_store_tasks task_A_def task_B_def
        task_C_def)
  have f: "real_of_int 1500 \<le> float_sub 1600 100" "real_of_int 300 \<le> float_sub 400 100"
    by (rule float_sub_ge, simp, simp)+
  have u1: "update 1600 (timer work_app) = Inr (complete_session running_timer, True)"
    unfolding w using f(1) by (intro update_expired [where s = 100]) (simp_all add: rt)
  have s1: "session_type (timer (work_app\<lparr>timer := complete_session running_timer\<rparr>)) \<noteq> WORK"
    by (simp add: cs)
  have 1: "run_update 1600 today_ex work_app =
      Inr (work_app\<lparr>timer := complete_session running_timer\<rparr>)"
    using run_update_completed [OF u1, of today_ex] s1 by (simp add: on_session_complete_def)
  have u2: "update 400 (timer (work_app\<lparr>timer := break_timer\<rparr>)) =
      Inr (complete_session break_timer, True)"
    using f(2) by (simp, intro update_expired [where s = 100]) (simp_all add: bt)
  have s2: "session_type (complete_session break_timer) = WORK"
    by (simp add: complete_session_def start_work_def Let_def bt)
  have 2: "run_update 400 today_ex (work_app\<lparr>timer := break_timer\<rparr>) =
     Inr (work_app\<lparr>timer := complete_session break_timer,
           task_manager := increment_task_pomodoro 2 (task_manager work_app),
           stats := record_pomodoro today_ex ''A'' Map.empty\<rparr>)"
    using run_update_completed [OF u2, of today_ex] s2 act
    by (simp add: on_session_complete_def w(2) task_A_def)
  have 3: "total_pomodoros (get_today_stats today_ex (record_pomodoro today_ex ''A'' Map.empty)) = 1"
    by (simp add: get_today_stats_def record_pomodoro_def Let_def zero_day_def)
  have 4: "map completed_pomodoros (tasks (increment_task_pomodoro 2 (task_manager work_app))) =
      [0, 1, 0]"
    by (simp add: w increment_task_pomodoro_def get_task_def example_store_tasks task_A_def
        task_B_def task_C_def)
  show ?thesis using w(1,2) rt(4) bt(4) act 1 2 3 4 by simp
qed

end
